theory Spec2Isabelle
  imports Main "HOL-Library.AList"
begin

section \<open>JavaScript values\<close>

text \<open>
  The values that travel through the storage layer: keys and table names are strings, ids
  and stored values are primitive JavaScript values. Numbers are modelled as integers
  (non-integral numbers, objects and arrays are outside the model).
\<close>

datatype jsval = JUndefined | JNull | JBool bool | JNum int | JStr string

text \<open>ToBoolean, as used by \<^verbatim>\<open>if (id)\<close>, \<^verbatim>\<open>if (limit)\<close> and \<^verbatim>\<open>query && ...\<close>.\<close>

fun truthy :: "jsval \<Rightarrow> bool" where
  "truthy JUndefined = False"
| "truthy JNull = False"
| "truthy (JBool b) = b"
| "truthy (JNum n) = (n \<noteq> 0)"
| "truthy (JStr s) = (s \<noteq> [])"

fun nat_digits :: "nat \<Rightarrow> string" where
  "nat_digits n =
     (if n < 10 then [char_of (48 + n)]
      else nat_digits (n div 10) @ [char_of (48 + n mod 10)])"

declare nat_digits.simps [simp del]

text \<open>ToString, as performed by the template literal \<^verbatim>\<open>`${key}_${id}`\<close>.\<close>

fun toString :: "jsval \<Rightarrow> string" where
  "toString JUndefined = ''undefined''"
| "toString JNull = ''null''"
| "toString (JBool b) = (if b then ''true'' else ''false'')"
| "toString (JNum n) = (if n < 0 then CHR ''-'' # nat_digits (nat (- n)) else nat_digits (nat n))"
| "toString (JStr s) = s"

section \<open>The client: caches, variable registry, document store\<close>

text \<open>
  A persisted document \<^verbatim>\<open>{key, value}\<close> (the store-generated \<^verbatim>\<open>_id\<close> is not modelled).
\<close>

record doc =
  dkey :: string
  dvalue :: jsval

text \<open>Every call the layer makes on the cache facade and on the document store.\<close>

datatype event =
    CacheGet string string
  | CacheSet string string jsval
  | CacheDelete string string
  | FindOne string string string
  | Find string string
  | UpdateOne string string string jsval
  | DeleteOne string string string
  | DeleteMany string string
  | CountDocuments string string
  | DropCollection string string
  | DropDatabase string
  | ListCollections string

text \<open>
  The cache manager, the variable manager and the database driver are collaborators from
  outside the repository; each is modelled by the contract the code relies on.
  \<^verbatim>\<open>this.debug\<close> and \<^verbatim>\<open>this.client\<close>:
  \<^item> \<open>caches\<close> is \<^verbatim>\<open>client.cacheManager.caches["Group"]\<close>, from cache name to a
    JavaScript \<^verbatim>\<open>Map\<close> (an association list in insertion order);
  \<^item> \<open>variables\<close> is \<^verbatim>\<open>client.variableManager\<close>: (key, table) to the declared default;
  \<^item> \<open>store\<close> is \<^verbatim>\<open>client.db\<close>: table to its collections in listing order, each a
    name with its documents; a database or collection that does not exist is empty;
  \<^item> \<open>trace\<close> records the calls made, oldest first.
\<close>

record client =
  debug :: bool
  caches :: "string \<rightharpoonup> (string \<times> jsval) list"
  variables :: "string \<times> string \<rightharpoonup> jsval"
  store :: "string \<Rightarrow> (string \<times> doc list) list"
  trace :: "event list"

datatype error = ReferenceError | TypeError | NamespaceNotFound

datatype 'a outcome = Return 'a | Throw error

text \<open>Sequencing of awaited calls: a thrown error skips the rest and keeps the state reached.\<close>

definition bind ::
  "'a outcome \<times> client \<Rightarrow> ('a \<Rightarrow> client \<Rightarrow> 'b outcome \<times> client) \<Rightarrow> 'b outcome \<times> client" where
  "bind m f = (case m of (Return a, s) \<Rightarrow> f a s | (Throw e, s) \<Rightarrow> (Throw e, s))"

definition emit :: "event \<Rightarrow> client \<Rightarrow> client" where
  "emit e s = s\<lparr>trace := trace s @ [e]\<rparr>"

subsection \<open>Identifier resolution\<close>

text \<open>
  Reading an identifier that no enclosing scope binds throws a ReferenceError. \<open>env\<close> lists
  the bindings visible at the point of the read.
\<close>

definition lookup_var :: "(string \<times> jsval) list \<Rightarrow> string \<Rightarrow> client \<Rightarrow> jsval outcome \<times> client" where
  "lookup_var env x s = (case map_of env x of Some v \<Rightarrow> (Return v, s) | None \<Rightarrow> (Throw ReferenceError, s))"

subsection \<open>Cache facade\<close>

text \<open>
  \<^verbatim>\<open>caches["Group"][cacheName]\<close> is \<^verbatim>\<open>undefined\<close> for a table without a cache, and a
  method call on it throws a TypeError.
\<close>

definition cacheGet :: "string \<Rightarrow> string \<Rightarrow> client \<Rightarrow> jsval outcome \<times> client" where
  "cacheGet cacheName k s =
     (case caches s cacheName of
        None \<Rightarrow> (Throw TypeError, s)
      | Some c \<Rightarrow>
          (Return (case map_of c k of None \<Rightarrow> JUndefined | Some v \<Rightarrow> v),
           emit (CacheGet cacheName k) s))"

definition cacheSet :: "string \<Rightarrow> string \<Rightarrow> jsval \<Rightarrow> client \<Rightarrow> unit outcome \<times> client" where
  "cacheSet cacheName k v s =
     (case caches s cacheName of
        None \<Rightarrow> (Throw TypeError, s)
      | Some c \<Rightarrow>
          (Return (),
           emit (CacheSet cacheName k v) (s\<lparr>caches := (caches s)(cacheName \<mapsto> AList.update k v c)\<rparr>)))"

definition cacheDelete :: "string \<Rightarrow> string \<Rightarrow> client \<Rightarrow> unit outcome \<times> client" where
  "cacheDelete cacheName k s =
     (case caches s cacheName of
        None \<Rightarrow> (Throw TypeError, s)
      | Some c \<Rightarrow>
          (Return (),
           emit (CacheDelete cacheName k) (s\<lparr>caches := (caches s)(cacheName \<mapsto> AList.delete k c)\<rparr>)))"

subsection \<open>Variable registry\<close>

definition variableManager_has :: "client \<Rightarrow> string \<Rightarrow> string \<Rightarrow> bool" where
  "variableManager_has s k table = (variables s (k, table) \<noteq> None)"

text \<open>\<^verbatim>\<open>variableManager.get(key, table)?.default\<close>\<close>

definition variableManager_default :: "client \<Rightarrow> string \<Rightarrow> string \<Rightarrow> jsval" where
  "variableManager_default s k table =
     (case variables s (k, table) of None \<Rightarrow> JUndefined | Some d \<Rightarrow> d)"

subsection \<open>Document store\<close>

text \<open>
  The calls of the database driver that the layer uses. The store is taken to be
  reachable: a call fails only where stated.
\<close>

definition collection_docs :: "(string \<times> doc list) list \<Rightarrow> string \<Rightarrow> doc list" where
  "collection_docs db name = (case map_of db name of None \<Rightarrow> [] | Some ds \<Rightarrow> ds)"

text \<open>A change to the documents of a collection; a collection that does not exist is not created.\<close>

definition on_collection ::
  "string \<Rightarrow> (doc list \<Rightarrow> doc list) \<Rightarrow> (string \<times> doc list) list \<Rightarrow> (string \<times> doc list) list" where
  "on_collection name f db =
     (case map_of db name of None \<Rightarrow> db | Some ds \<Rightarrow> AList.update name (f ds) db)"

text \<open>The driver serialises \<^verbatim>\<open>undefined\<close> as null (\<^verbatim>\<open>ignoreUndefined\<close> is off).\<close>

definition bson :: "jsval \<Rightarrow> jsval" where
  "bson v = (if v = JUndefined then JNull else v)"

text \<open>\<^verbatim>\<open>col.findOne({ key: k })\<close>: the first document with that key, or null.\<close>

definition findOne :: "string \<Rightarrow> string \<Rightarrow> string \<Rightarrow> client \<Rightarrow> doc option outcome \<times> client" where
  "findOne table coll k s =
     (Return (find (\<lambda>d. dkey d = k) (collection_docs (store s table) coll)),
      emit (FindOne table coll k) s)"

text \<open>\<^verbatim>\<open>col.find(filter).toArray()\<close>, the filter given by the documents it matches.\<close>

definition find_docs :: "string \<Rightarrow> string \<Rightarrow> (doc \<Rightarrow> bool) \<Rightarrow> client \<Rightarrow> doc list outcome \<times> client" where
  "find_docs table coll m s =
     (Return (filter m (collection_docs (store s table) coll)), emit (Find table coll) s)"

fun set_value :: "string \<Rightarrow> jsval \<Rightarrow> doc list \<Rightarrow> doc list" where
  "set_value k v [] = [\<lparr>dkey = k, dvalue = v\<rparr>]"
| "set_value k v (d # ds) =
     (if dkey d = k then d\<lparr>dvalue := v\<rparr> # ds else d # set_value k v ds)"

text \<open>
  \<^verbatim>\<open>col.updateOne({ key: k }, { $set: { value: v } }, { upsert: true })\<close>: the first
  document with the key gets the value; without one a document is inserted, and the
  collection is created when it does not exist.
\<close>

definition updateOne :: "string \<Rightarrow> string \<Rightarrow> string \<Rightarrow> jsval \<Rightarrow> client \<Rightarrow> unit outcome \<times> client" where
  "updateOne table coll k v s =
     (Return (),
      emit (UpdateOne table coll k v)
        (s\<lparr>store := (store s)(table :=
              AList.update coll (set_value k (bson v) (collection_docs (store s table) coll))
                (store s table))\<rparr>))"

fun remove_first :: "string \<Rightarrow> doc list \<Rightarrow> doc list" where
  "remove_first k [] = []"
| "remove_first k (d # ds) = (if dkey d = k then ds else d # remove_first k ds)"

definition deleteOne :: "string \<Rightarrow> string \<Rightarrow> string \<Rightarrow> client \<Rightarrow> unit outcome \<times> client" where
  "deleteOne table coll k s =
     (Return (),
      emit (DeleteOne table coll k)
        (s\<lparr>store := (store s)(table := on_collection coll (remove_first k) (store s table))\<rparr>))"

text \<open>\<^verbatim>\<open>col.deleteMany(filter)\<close>, the filter given by the documents it matches.\<close>

definition deleteMany_docs :: "string \<Rightarrow> string \<Rightarrow> (doc \<Rightarrow> bool) \<Rightarrow> client \<Rightarrow> unit outcome \<times> client" where
  "deleteMany_docs table coll m s =
     (Return (),
      emit (DeleteMany table coll)
        (s\<lparr>store := (store s)(table :=
              on_collection coll (filter (\<lambda>d. \<not> m d)) (store s table))\<rparr>))"

definition countDocuments :: "string \<Rightarrow> string \<Rightarrow> client \<Rightarrow> nat outcome \<times> client" where
  "countDocuments table coll s =
     (Return (length (collection_docs (store s table) coll)), emit (CountDocuments table coll) s)"

text \<open>Dropping a collection that does not exist fails (\<^verbatim>\<open>ns not found\<close>).\<close>

definition dropCollection :: "string \<Rightarrow> string \<Rightarrow> client \<Rightarrow> unit outcome \<times> client" where
  "dropCollection table coll s =
     (if coll \<in> fst ` set (store s table)
      then (Return (),
            emit (DropCollection table coll)
              (s\<lparr>store := (store s)(table := AList.delete coll (store s table))\<rparr>))
      else (Throw NamespaceNotFound, emit (DropCollection table coll) s))"

definition dropDatabase :: "string \<Rightarrow> client \<Rightarrow> unit outcome \<times> client" where
  "dropDatabase table s =
     (Return (), emit (DropDatabase table) (s\<lparr>store := (store s)(table := [])\<rparr>))"

definition listCollections :: "string \<Rightarrow> client \<Rightarrow> string list outcome \<times> client" where
  "listCollections table s = (Return (map fst (store s table)), emit (ListCollections table) s)"

section \<open>get and set\<close>

definition aoijs_vars :: "string list" where
  "aoijs_vars = [''cooldown'', ''setTimeout'', ''ticketChannel'']"

text \<open>What \<^verbatim>\<open>get\<close> resolves to: \<^verbatim>\<open>undefined\<close>, null, or a record.\<close>

datatype getres = NoResult | NullResult | Record doc

text \<open>\<^verbatim>\<open>src/classes/Database.js\<close>, \<^verbatim>\<open>get\<close>.\<close>

definition get_A :: "client \<Rightarrow> string \<Rightarrow> string \<Rightarrow> jsval \<Rightarrow> getres outcome \<times> client" where
  "get_A s table key id' =
     (let cacheKey = (if truthy id' then key @ ''_'' @ toString id' else key);
          cacheName = ''c_'' @ table
      in bind (cacheGet cacheName cacheKey s) (\<lambda>cachedValue s.
           if cachedValue \<noteq> JUndefined
           then (Return (Record \<lparr>dkey = cacheKey, dvalue = cachedValue\<rparr>), s)
           else if key \<in> set aoijs_vars
           then bind (findOne table key cacheKey s) (\<lambda>data s.
                  case data of
                    Some d \<Rightarrow>
                      bind (cacheSet cacheName cacheKey (dvalue d) s) (\<lambda>_ s.
                        (Return (Record \<lparr>dkey = cacheKey, dvalue = dvalue d\<rparr>), s))
                  | None \<Rightarrow> (Return (Record \<lparr>dkey = cacheKey, dvalue = JNull\<rparr>), s))
           else if \<not> variableManager_has s key table then (Return NoResult, s)
           else bind (findOne table key cacheKey s) (\<lambda>data s.
                  case data of
                    Some d \<Rightarrow>
                      bind (cacheSet cacheName cacheKey (dvalue d) s) (\<lambda>_ s.
                        (Return (Record \<lparr>dkey = cacheKey, dvalue = dvalue d\<rparr>), s))
                  | None \<Rightarrow>
                      (let var = variableManager_default s key table
                       in bind (cacheSet cacheName cacheKey var s) (\<lambda>_ s.
                            (Return (Record \<lparr>dkey = cacheKey, dvalue = var\<rparr>), s))))))"

text \<open>
  \<^verbatim>\<open>src/classes/Database.js\<close>, \<^verbatim>\<open>set\<close>. The function binds its parameters,
  \<^verbatim>\<open>cacheKey\<close> and, further down, \<^verbatim>\<open>col\<close>; the module binds \<^verbatim>\<open>MongoClient\<close>,
  \<^verbatim>\<open>ServerApiVersion\<close>, \<^verbatim>\<open>AoiError\<close>, \<^verbatim>\<open>EventEmitter\<close> and \<^verbatim>\<open>Database\<close>. The
  environment lists the bindings that hold a primitive value. The function reads
  \<^verbatim>\<open>cacheName\<close> to select the cache.
\<close>

definition set_A :: "client \<Rightarrow> string \<Rightarrow> string \<Rightarrow> jsval \<Rightarrow> jsval \<Rightarrow> unit outcome \<times> client" where
  "set_A s table key id' val =
     (let cacheKey = (if truthy id' then key @ ''_'' @ toString id' else key);
          env = [(''table'', JStr table), (''key'', JStr key), (''id'', id'), (''value'', val),
                 (''cacheKey'', JStr cacheKey)]
      in bind (lookup_var env ''cacheName'' s) (\<lambda>cacheName s.
           bind (cacheSet (toString cacheName) cacheKey val s) (\<lambda>_ s.
             updateOne table key cacheKey val s)))"

text \<open>\<^verbatim>\<open>src/unnamed/part_000\<close>, \<^verbatim>\<open>get\<close>.\<close>

definition get_B :: "client \<Rightarrow> string \<Rightarrow> string \<Rightarrow> jsval \<Rightarrow> getres outcome \<times> client" where
  "get_B s table key id' =
     (let cacheKey = key @ ''_'' @ toString id';
          cacheName = ''c_'' @ table
      in if key \<in> set aoijs_vars
         then bind (findOne table key cacheKey s) (\<lambda>data s.
                (Return (case data of None \<Rightarrow> NullResult | Some d \<Rightarrow> Record d), s))
         else if \<not> variableManager_has s key table then (Return NoResult, s)
         else (let var = variableManager_default s key table
               in bind (cacheGet cacheName cacheKey s) (\<lambda>cached s.
                    (Return (Record \<lparr>dkey = cacheKey,
                                     dvalue = (if cached = JUndefined \<or> cached = JNull
                                               then var else cached)\<rparr>), s))))"

text \<open>\<^verbatim>\<open>src/unnamed/part_000\<close>, \<^verbatim>\<open>set\<close>.\<close>

definition set_B :: "client \<Rightarrow> string \<Rightarrow> string \<Rightarrow> jsval \<Rightarrow> jsval \<Rightarrow> unit outcome \<times> client" where
  "set_B s table key id' val =
     (let cacheKey = key @ ''_'' @ toString id';
          cacheName = ''c_'' @ table
      in bind (cacheSet cacheName cacheKey val s) (\<lambda>_ s.
           updateOne table key cacheKey val s))"

text \<open>
  The state in which the cache of a table has been emptied, so that the store is the only
  source left.
\<close>

definition clearCache :: "string \<Rightarrow> client \<Rightarrow> client" where
  "clearCache table s = s\<lparr>caches := (caches s)(''c_'' @ table \<mapsto> [])\<rparr>"

section \<open>drop\<close>

text \<open>\<^verbatim>\<open>for (const key of cache.keys()) cache.delete(key)\<close>\<close>

fun evict_keys :: "string \<Rightarrow> string list \<Rightarrow> client \<Rightarrow> unit outcome \<times> client" where
  "evict_keys cacheName [] s = (Return (), s)"
| "evict_keys cacheName (k # ks) s =
     bind (cacheDelete cacheName k s) (\<lambda>_ s. evict_keys cacheName ks s)"

text \<open>
  \<^verbatim>\<open>variable\<close> is a collection name or absent; an empty name is falsy and takes the
  branch of the whole table.
\<close>

definition drop_store :: "string \<Rightarrow> string option \<Rightarrow> client \<Rightarrow> unit outcome \<times> client" where
  "drop_store table variable s =
     (case variable of
        Some v \<Rightarrow> if v \<noteq> [] then dropCollection table v s else dropDatabase table s
      | None \<Rightarrow> dropDatabase table s)"

text \<open>\<^verbatim>\<open>src/classes/Database.js\<close>, \<^verbatim>\<open>drop\<close>.\<close>

definition drop_A :: "client \<Rightarrow> string \<Rightarrow> string option \<Rightarrow> unit outcome \<times> client" where
  "drop_A s table variable =
     (let cacheName = ''c_'' @ table
      in bind (drop_store table variable s) (\<lambda>_ s.
           case caches s cacheName of
             None \<Rightarrow> (Throw TypeError, s)
           | Some cache \<Rightarrow> evict_keys cacheName (map fst cache) s))"

text \<open>
  \<^verbatim>\<open>src/unnamed/part_000\<close>, \<^verbatim>\<open>drop\<close>. After the store call it evaluates
  \<^verbatim>\<open>delete this.client.cacheManager.caches("Group", `c_${table}`)\<close>: the operand of
  \<^verbatim>\<open>delete\<close> is a call of \<^verbatim>\<open>caches\<close>, the object that every other method
  indexes as \<^verbatim>\<open>caches["Group"][cacheName]\<close>. Calling it throws a TypeError, and no
  cache is touched.
\<close>

definition drop_B :: "client \<Rightarrow> string \<Rightarrow> string option \<Rightarrow> unit outcome \<times> client" where
  "drop_B s table variable =
     bind (drop_store table variable s) (\<lambda>_ s. (Throw TypeError, s))"

section \<open>deleteMany and delete\<close>

text \<open>
  A query argument: absent, a JavaScript function (given by the truthiness of its result
  on its first argument, a string or a document), or a native filter (given by the
  documents it matches).
\<close>

datatype jsarg = ArgStr string | ArgDoc doc

datatype query = QUndefined | QFunction "jsarg \<Rightarrow> bool" | QFilter "doc \<Rightarrow> bool"

text \<open>
  The first loop of \<^verbatim>\<open>deleteMany\<close>, over the entries of the cache: the keys to delete.
  \<^verbatim>\<open>key.split("_")[0]\<close> is the part before the first underscore. Calling a query that is
  not a function throws a TypeError.
\<close>

fun keysToDelete ::
  "client \<Rightarrow> string \<Rightarrow> query \<Rightarrow> string list \<Rightarrow> string list \<Rightarrow> string list outcome" where
  "keysToDelete s table query [] acc = Return acc"
| "keysToDelete s table query (key # keys) acc =
     (let cacheKey = takeWhile (\<lambda>c. c \<noteq> CHR ''_'') key
      in if variableManager_has s cacheKey table
         then if variableManager_default s cacheKey table = JUndefined
              then keysToDelete s table query keys acc
              else (case query of
                      QUndefined \<Rightarrow> keysToDelete s table query keys acc
                    | QFilter m \<Rightarrow> Throw TypeError
                    | QFunction f \<Rightarrow>
                        if f (ArgStr cacheKey)
                        then keysToDelete s table query keys (acc @ [key])
                        else keysToDelete s table query keys acc)
         else keysToDelete s table query keys acc)"

text \<open>
  What \<^verbatim>\<open>col.deleteMany(query)\<close> matches: everything for an absent filter, the filter's
  documents for a native filter; what the driver does with a function is its own and is
  taken as the parameter \<open>fnFilter\<close>.
\<close>

definition query_matches :: "((jsarg \<Rightarrow> bool) \<Rightarrow> doc \<Rightarrow> bool) \<Rightarrow> query \<Rightarrow> doc \<Rightarrow> bool" where
  "query_matches fnFilter query =
     (case query of QUndefined \<Rightarrow> (\<lambda>_. True) | QFilter m \<Rightarrow> m | QFunction f \<Rightarrow> fnFilter f)"

fun deleteMany_loop ::
  "(doc \<Rightarrow> bool) \<Rightarrow> string \<Rightarrow> string list \<Rightarrow> client \<Rightarrow> unit outcome \<times> client" where
  "deleteMany_loop m table [] s = (Return (), s)"
| "deleteMany_loop m table (c # cs) s =
     bind (deleteMany_docs table c m s) (\<lambda>_ s. deleteMany_loop m table cs s)"

text \<open>\<^verbatim>\<open>src/unnamed/part_000\<close>, \<^verbatim>\<open>deleteMany\<close>.\<close>

definition deleteMany_B ::
  "((jsarg \<Rightarrow> bool) \<Rightarrow> doc \<Rightarrow> bool) \<Rightarrow> client \<Rightarrow> string \<Rightarrow> query \<Rightarrow> unit outcome \<times> client" where
  "deleteMany_B fnFilter s table query =
     (let cacheName = ''c_'' @ table
      in case caches s cacheName of
           None \<Rightarrow> (Throw TypeError, s)
         | Some cache \<Rightarrow>
             bind (keysToDelete s table query (map fst cache) [], s) (\<lambda>keys s.
               bind (evict_keys cacheName keys s) (\<lambda>_ s.
                 bind (listCollections table s) (\<lambda>collections s.
                   deleteMany_loop (query_matches fnFilter query) table collections s))))"

text \<open>
  \<^verbatim>\<open>src/classes/Database.js\<close>, \<^verbatim>\<open>deleteMany\<close>. With \<^verbatim>\<open>debug\<close> on, the function reads
  \<^verbatim>\<open>col\<close> between the two loops. The bindings in scope there are \<^verbatim>\<open>table\<close>,
  \<^verbatim>\<open>query\<close>, \<^verbatim>\<open>cacheName\<close>, \<^verbatim>\<open>cache\<close> and \<^verbatim>\<open>keysToDelete\<close> (\<^verbatim>\<open>const col\<close> is
  local to the body of the second loop); the environment lists those that hold a primitive
  value. A primitive has no \<^verbatim>\<open>find\<close> method, so a call of it would throw a TypeError.
\<close>

definition deleteMany_A ::
  "((jsarg \<Rightarrow> bool) \<Rightarrow> doc \<Rightarrow> bool) \<Rightarrow> client \<Rightarrow> string \<Rightarrow> query \<Rightarrow> unit outcome \<times> client" where
  "deleteMany_A fnFilter s table query =
     (let cacheName = ''c_'' @ table
      in case caches s cacheName of
           None \<Rightarrow> (Throw TypeError, s)
         | Some cache \<Rightarrow>
             bind (keysToDelete s table query (map fst cache) [], s) (\<lambda>keys s.
               bind (if debug s
                     then bind (lookup_var [(''table'', JStr table), (''cacheName'', JStr cacheName)]
                                  ''col'' s)
                            (\<lambda>col s. (Throw TypeError, s))
                     else (Return (), s)) (\<lambda>_ s.
                 bind (evict_keys cacheName keys s) (\<lambda>_ s.
                   bind (listCollections table s) (\<lambda>collections s.
                     deleteMany_loop (query_matches fnFilter query) table collections s)))))"

text \<open>\<^verbatim>\<open>src/classes/Database.js\<close>, \<^verbatim>\<open>delete\<close>: the loop over the collections.\<close>

fun delete_loop_A ::
  "string \<Rightarrow> string \<Rightarrow> string \<Rightarrow> string list \<Rightarrow> client \<Rightarrow> unit outcome \<times> client" where
  "delete_loop_A table cacheName dbkey [] s = (Return (), s)"
| "delete_loop_A table cacheName dbkey (c # cs) s =
     bind (findOne table c dbkey s) (\<lambda>doc s.
       case doc of
         None \<Rightarrow> delete_loop_A table cacheName dbkey cs s
       | Some d \<Rightarrow>
           bind (deleteOne table c dbkey s) (\<lambda>_ s. cacheDelete cacheName dbkey s))"

definition delete_A :: "client \<Rightarrow> string \<Rightarrow> string \<Rightarrow> jsval \<Rightarrow> unit outcome \<times> client" where
  "delete_A s table key id' =
     (let dbkey = (if truthy id' then key @ ''_'' @ toString id' else key);
          cacheName = ''c_'' @ table
      in bind (listCollections table s) (\<lambda>collections s.
           delete_loop_A table cacheName dbkey collections s))"

text \<open>
  \<^verbatim>\<open>src/unnamed/part_000\<close>, \<^verbatim>\<open>delete\<close>: a collection left without documents is dropped.
\<close>

fun delete_loop_B ::
  "string \<Rightarrow> string \<Rightarrow> string \<Rightarrow> string list \<Rightarrow> client \<Rightarrow> unit outcome \<times> client" where
  "delete_loop_B table cacheName dbkey [] s = (Return (), s)"
| "delete_loop_B table cacheName dbkey (c # cs) s =
     bind (findOne table c dbkey s) (\<lambda>doc s.
       case doc of
         None \<Rightarrow> delete_loop_B table cacheName dbkey cs s
       | Some d \<Rightarrow>
           bind (deleteOne table c dbkey s) (\<lambda>_ s.
             bind (cacheDelete cacheName dbkey s) (\<lambda>_ s.
               bind (countDocuments table c s) (\<lambda>n s.
                 if n = 0 then dropCollection table c s else (Return (), s)))))"

definition delete_B :: "client \<Rightarrow> string \<Rightarrow> string \<Rightarrow> jsval \<Rightarrow> unit outcome \<times> client" where
  "delete_B s table key id' =
     bind (listCollections table s) (\<lambda>collections s.
       (let dbkey = key @ ''_'' @ toString id';
            cacheName = ''c_'' @ table
        in delete_loop_B table cacheName dbkey collections s))"

section \<open>findMany and all\<close>

text \<open>
  \<^verbatim>\<open>data.slice(0, n)\<close>: a negative end counts from the end of the array.
\<close>

definition slice0 :: "'a list \<Rightarrow> int \<Rightarrow> 'a list" where
  "slice0 xs n = (if n < 0 then take (nat (int (length xs) + n)) xs else take (nat n) xs)"

text \<open>
  \<^verbatim>\<open>findMany\<close> (the same text in both files). \<^verbatim>\<open>limit\<close> is a number or absent;
  \<^verbatim>\<open>if (limit)\<close> is false for 0 as well.
\<close>

fun findMany_loop ::
  "string \<Rightarrow> query \<Rightarrow> int option \<Rightarrow> string list \<Rightarrow> doc list \<Rightarrow> client \<Rightarrow> doc list outcome \<times> client" where
  "findMany_loop table query limit [] results s = (Return results, s)"
| "findMany_loop table query limit (c # cs) results s =
     bind (case query of
             QFunction f \<Rightarrow>
               bind (find_docs table c (\<lambda>_. True) s) (\<lambda>data s.
                 (Return (filter (\<lambda>d. f (ArgDoc d)) data), s))
           | QFilter m \<Rightarrow> find_docs table c m s
           | QUndefined \<Rightarrow> find_docs table c (\<lambda>_. True) s)
       (\<lambda>data s.
          findMany_loop table query limit cs
            (results @ (case limit of
                          Some n \<Rightarrow> if n \<noteq> 0 then slice0 data n else data
                        | None \<Rightarrow> data)) s)"

definition findMany :: "client \<Rightarrow> string \<Rightarrow> query \<Rightarrow> int option \<Rightarrow> doc list outcome \<times> client" where
  "findMany s table query limit =
     bind (listCollections table s) (\<lambda>collections s.
       findMany_loop table query limit collections [] s)"

text \<open>
  ToNumber of the operands of \<^verbatim>\<open>a.value - b.value\<close>; \<open>None\<close> is NaN. How a string
  converts is taken as the parameter \<open>strNum\<close>.
\<close>

fun toNumber :: "(string \<Rightarrow> int option) \<Rightarrow> jsval \<Rightarrow> int option" where
  "toNumber strNum JUndefined = None"
| "toNumber strNum JNull = Some 0"
| "toNumber strNum (JBool b) = Some (if b then 1 else 0)"
| "toNumber strNum (JNum n) = Some n"
| "toNumber strNum (JStr s) = strNum s"

definition js_minus :: "(string \<Rightarrow> int option) \<Rightarrow> jsval \<Rightarrow> jsval \<Rightarrow> int option" where
  "js_minus strNum a b =
     (case toNumber strNum a of
        None \<Rightarrow> None
      | Some x \<Rightarrow> (case toNumber strNum b of None \<Rightarrow> None | Some y \<Rightarrow> Some (x - y)))"

text \<open>
  \<^verbatim>\<open>Array.prototype.sort\<close> with a comparator: the sort is stable and a NaN result counts
  as 0. It is modelled as insertion from the right, which yields the stable sorted
  permutation whenever the comparator is a consistent order.
\<close>

definition comes_first :: "('a \<Rightarrow> 'a \<Rightarrow> int option) \<Rightarrow> 'a \<Rightarrow> 'a \<Rightarrow> bool" where
  "comes_first cmp a b = (case cmp a b of None \<Rightarrow> True | Some v \<Rightarrow> v \<le> 0)"

fun js_insert :: "('a \<Rightarrow> 'a \<Rightarrow> int option) \<Rightarrow> 'a \<Rightarrow> 'a list \<Rightarrow> 'a list" where
  "js_insert cmp x [] = [x]"
| "js_insert cmp x (y # ys) =
     (if comes_first cmp x y then x # y # ys else y # js_insert cmp x ys)"

definition js_sort :: "('a \<Rightarrow> 'a \<Rightarrow> int option) \<Rightarrow> 'a list \<Rightarrow> 'a list" where
  "js_sort cmp xs = foldr (js_insert cmp) xs []"

text \<open>
  \<^verbatim>\<open>all\<close> (the same text in both files): \<^verbatim>\<open>data.filter(filter)\<close> throws a TypeError
  unless the filter is a function.
\<close>

fun all_loop ::
  "string \<Rightarrow> query \<Rightarrow> string list \<Rightarrow> doc list \<Rightarrow> client \<Rightarrow> doc list outcome \<times> client" where
  "all_loop table flt [] results s = (Return results, s)"
| "all_loop table flt (c # cs) results s =
     bind (find_docs table c (\<lambda>_. True) s) (\<lambda>data s.
       case flt of
         QFunction f \<Rightarrow> all_loop table flt cs (results @ filter (\<lambda>d. f (ArgDoc d)) data) s
       | QFilter m \<Rightarrow> (Throw TypeError, s)
       | QUndefined \<Rightarrow> (Throw TypeError, s))"

definition all ::
  "(string \<Rightarrow> int option) \<Rightarrow> client \<Rightarrow> string \<Rightarrow> query \<Rightarrow> int option \<Rightarrow> string option
     \<Rightarrow> doc list outcome \<times> client" where
  "all strNum s table flt list sort' =
     (let list = (case list of None \<Rightarrow> 100 | Some n \<Rightarrow> n);
          sort' = (case sort' of None \<Rightarrow> ''asc'' | Some x \<Rightarrow> x)
      in bind (listCollections table s) (\<lambda>collections s.
           bind (all_loop table flt collections [] s) (\<lambda>results s.
             (Return
                (slice0
                   (if sort' = ''asc''
                    then js_sort (\<lambda>a b. js_minus strNum (dvalue a) (dvalue b)) results
                    else if sort' = ''desc''
                    then js_sort (\<lambda>a b. js_minus strNum (dvalue b) (dvalue a)) results
                    else results)
                   list), s))))"

section \<open>Observing the calls of an operation\<close>

text \<open>The calls made between a state and a later one.\<close>

definition calls :: "client \<Rightarrow> client \<Rightarrow> event list" where
  "calls s s' = drop (length (trace s)) (trace s')"

text \<open>Calls on the document store, as opposed to calls on a cache.\<close>

fun store_access :: "event \<Rightarrow> bool" where
  "store_access (CacheGet cn k) = False"
| "store_access (CacheSet cn k v) = False"
| "store_access (CacheDelete cn k) = False"
| "store_access e = True"

text \<open>Calls that read the documents of a collection.\<close>

fun collection_read :: "event \<Rightarrow> bool" where
  "collection_read (FindOne t c k) = True"
| "collection_read (Find t c) = True"
| "collection_read (CountDocuments t c) = True"
| "collection_read e = False"

text \<open>Calls that change a cache.\<close>

fun cache_write :: "event \<Rightarrow> bool" where
  "cache_write (CacheSet cn k v) = True"
| "cache_write (CacheDelete cn k) = True"
| "cache_write e = False"

text \<open>The cache key or document key a call addresses, if it addresses one.\<close>

fun event_key :: "event \<Rightarrow> string option" where
  "event_key (CacheGet cn k) = Some k"
| "event_key (CacheSet cn k v) = Some k"
| "event_key (CacheDelete cn k) = Some k"
| "event_key (FindOne t c k) = Some k"
| "event_key (UpdateOne t c k v) = Some k"
| "event_key (DeleteOne t c k) = Some k"
| "event_key e = None"

text \<open>The number that \<^verbatim>\<open>a.value - b.value\<close> compares a document by (0 where it is NaN).\<close>

definition value_number :: "(string \<Rightarrow> int option) \<Rightarrow> doc \<Rightarrow> int" where
  "value_number strNum d = (case toNumber strNum (dvalue d) of Some n \<Rightarrow> n | None \<Rightarrow> 0)"

section \<open>Example states\<close>

text \<open>
  One table \<^verbatim>\<open>main\<close> with the declared variable \<^verbatim>\<open>money\<close> (default 0), a cache that
  holds two entries, and one stored document.
\<close>

definition shop :: client where
  "shop =
     \<lparr>debug = False,
      caches = [''c_main'' \<mapsto> [(''money_1'', JNum 5), (''cooldown_1'', JNum 5)]],
      variables = [(''money'', ''main'') \<mapsto> JNum 0],
      store = (\<lambda>_. [])(''main'' := [(''money'', [\<lparr>dkey = ''money_1'', dvalue = JNum 5\<rparr>])]),
      trace = []\<rparr>"

text \<open>
  The collections \<^verbatim>\<open>{A: [{key:"x",value:1}], B: [{key:"y",value:5}]}\<close> in table
  \<^verbatim>\<open>main\<close>, and the filter \<^verbatim>\<open>v => v.value > 0\<close> (a string has no \<^verbatim>\<open>value\<close>, and
  \<^verbatim>\<open>undefined > 0\<close> is false).
\<close>

definition ledger :: client where
  "ledger =
     \<lparr>debug = False,
      caches = [''c_main'' \<mapsto> []],
      variables = Map.empty,
      store = (\<lambda>_. [])(''main'' :=
                [(''A'', [\<lparr>dkey = ''x'', dvalue = JNum 1\<rparr>]),
                 (''B'', [\<lparr>dkey = ''y'', dvalue = JNum 5\<rparr>])]),
      trace = []\<rparr>"

definition positive_value :: "(string \<Rightarrow> int option) \<Rightarrow> jsarg \<Rightarrow> bool" where
  "positive_value strNum a =
     (case a of
        ArgDoc d \<Rightarrow> (case toNumber strNum (dvalue d) of Some n \<Rightarrow> 0 < n | None \<Rightarrow> False)
      | ArgStr s \<Rightarrow> False)"

section \<open>Basic facts\<close>

lemma emit_caches [simp]: "caches (emit e s) = caches s"
  by (simp add: emit_def)

lemma emit_store [simp]: "store (emit e s) = store s"
  by (simp add: emit_def)

lemma emit_variables [simp]: "variables (emit e s) = variables s"
  by (simp add: emit_def)

lemma emit_debug [simp]: "debug (emit e s) = debug s"
  by (simp add: emit_def)

lemma emit_trace [simp]: "trace (emit e s) = trace s @ [e]"
  by (simp add: emit_def)

lemma bind_Return: "bind (Return a, s) f = f a s"
  by (simp add: bind_def)

lemma bind_Throw: "bind (Throw e, s) f = (Throw e, s)"
  by (simp add: bind_def)

lemma find_set_value:
  "find (\<lambda>d. dkey d = k) (set_value k v ds) = Some \<lparr>dkey = k, dvalue = v\<rparr>"
  by (induction ds) auto

lemma collection_docs_update: "collection_docs (AList.update coll ds db) coll = ds"
  by (simp add: collection_docs_def AList.update_conv')

lemma cacheSet_Some:
  "caches s cn = Some c \<Longrightarrow>
   cacheSet cn k v s =
     (Return (), emit (CacheSet cn k v) (s\<lparr>caches := (caches s)(cn \<mapsto> AList.update k v c)\<rparr>))"
  by (simp add: cacheSet_def)

lemma cacheGet_Some:
  "caches s cn = Some c \<Longrightarrow>
   cacheGet cn k s =
     (Return (case map_of c k of None \<Rightarrow> JUndefined | Some v \<Rightarrow> v), emit (CacheGet cn k) s)"
  by (simp add: cacheGet_def)

lemma shop_cache:
  "caches shop (''c_'' @ ''main'') = Some [(''money_1'', JNum 5), (''cooldown_1'', JNum 5)]"
  by (simp add: shop_def)

lemma calls_append: "trace s' = trace s @ evs \<Longrightarrow> calls s s' = evs"
  by (simp add: calls_def)

lemma find_key: "find (\<lambda>d. dkey d = k) ds = Some d \<Longrightarrow> dkey d = k"
  by (induction ds) (auto split: if_splits)

lemma ledger_store:
  "store ledger ''main'' =
     [(''A'', [\<lparr>dkey = ''x'', dvalue = JNum 1\<rparr>]), (''B'', [\<lparr>dkey = ''y'', dvalue = JNum 5\<rparr>])]"
  by (simp add: ledger_def)

section \<open>What get does, case by case\<close>

lemma get_A_no_cache:
  "caches s (''c_'' @ table) = None \<Longrightarrow> get_A s table key id' = (Throw TypeError, s)"
  by (simp add: get_A_def Let_def cacheGet_def bind_def)

lemma get_A_hit:
  "caches s (''c_'' @ table) = Some c \<Longrightarrow>
   map_of c (if truthy id' then key @ ''_'' @ toString id' else key) = Some v \<Longrightarrow>
   v \<noteq> JUndefined \<Longrightarrow>
   get_A s table key id' =
     (Return (Record \<lparr>dkey = (if truthy id' then key @ ''_'' @ toString id' else key), dvalue = v\<rparr>),
      emit (CacheGet (''c_'' @ table) (if truthy id' then key @ ''_'' @ toString id' else key)) s)"
  by (simp add: get_A_def Let_def cacheGet_def bind_def)

text \<open>
  After a miss in \<^verbatim>\<open>src/classes/Database.js\<close>: the result and the state reached.
\<close>

lemma get_A_miss:
  assumes "caches s (''c_'' @ table) = Some c"
    and "(case map_of c ck of None \<Rightarrow> JUndefined | Some v \<Rightarrow> v) = JUndefined"
    and "ck = (if truthy id' then key @ ''_'' @ toString id' else key)"
  shows "get_A s table key id' =
     (let s1 = emit (CacheGet (''c_'' @ table) ck) s;
          s2 = emit (FindOne table key ck) s1;
          found = find (\<lambda>d. dkey d = ck) (collection_docs (store s table) key)
      in if key \<in> set aoijs_vars
         then (case found of
                 Some d \<Rightarrow> (Return (Record \<lparr>dkey = ck, dvalue = dvalue d\<rparr>),
                            emit (CacheSet (''c_'' @ table) ck (dvalue d))
                              (s2\<lparr>caches := (caches s)(''c_'' @ table \<mapsto> AList.update ck (dvalue d) c)\<rparr>))
               | None \<Rightarrow> (Return (Record \<lparr>dkey = ck, dvalue = JNull\<rparr>), s2))
         else if variables s (key, table) = None then (Return NoResult, s1)
         else (case found of
                 Some d \<Rightarrow> (Return (Record \<lparr>dkey = ck, dvalue = dvalue d\<rparr>),
                            emit (CacheSet (''c_'' @ table) ck (dvalue d))
                              (s2\<lparr>caches := (caches s)(''c_'' @ table \<mapsto> AList.update ck (dvalue d) c)\<rparr>))
               | None \<Rightarrow> (Return (Record \<lparr>dkey = ck, dvalue = variableManager_default s key table\<rparr>),
                          emit (CacheSet (''c_'' @ table) ck (variableManager_default s key table))
                              (s2\<lparr>caches := (caches s)(''c_'' @ table \<mapsto>
                                    AList.update ck (variableManager_default s key table) c)\<rparr>))))"
proof -
  have g: "cacheGet (''c_'' @ table) ck s = (Return JUndefined, emit (CacheGet (''c_'' @ table) ck) s)"
    using assms(1,2) by (simp add: cacheGet_def)
  have gA: "get_A s table key id' =
     bind (cacheGet (''c_'' @ table) ck s) (\<lambda>cachedValue s.
           if cachedValue \<noteq> JUndefined
           then (Return (Record \<lparr>dkey = ck, dvalue = cachedValue\<rparr>), s)
           else if key \<in> set aoijs_vars
           then bind (findOne table key ck s) (\<lambda>data s.
                  case data of
                    Some d \<Rightarrow>
                      bind (cacheSet (''c_'' @ table) ck (dvalue d) s) (\<lambda>_ s.
                        (Return (Record \<lparr>dkey = ck, dvalue = dvalue d\<rparr>), s))
                  | None \<Rightarrow> (Return (Record \<lparr>dkey = ck, dvalue = JNull\<rparr>), s))
           else if \<not> variableManager_has s key table then (Return NoResult, s)
           else bind (findOne table key ck s) (\<lambda>data s.
                  case data of
                    Some d \<Rightarrow>
                      bind (cacheSet (''c_'' @ table) ck (dvalue d) s) (\<lambda>_ s.
                        (Return (Record \<lparr>dkey = ck, dvalue = dvalue d\<rparr>), s))
                  | None \<Rightarrow>
                      (let var = variableManager_default s key table
                       in bind (cacheSet (''c_'' @ table) ck var s) (\<lambda>_ s.
                            (Return (Record \<lparr>dkey = ck, dvalue = var\<rparr>), s)))))"
    unfolding get_A_def Let_def assms(3) by (rule refl)
  show ?thesis
    unfolding gA g bind_Return using assms(1)
    by (cases "find (\<lambda>d. dkey d = ck) (collection_docs (store s table) key)")
       (simp_all add: findOne_def cacheSet_Some bind_Return Let_def variableManager_has_def
          variableManager_default_def)
qed

lemma get_B_hit:
  "key \<notin> set aoijs_vars \<Longrightarrow> variables s (key, table) \<noteq> None \<Longrightarrow>
   caches s (''c_'' @ table) = Some c \<Longrightarrow>
   map_of c (key @ ''_'' @ toString id') = Some v \<Longrightarrow>
   v \<noteq> JUndefined \<Longrightarrow> v \<noteq> JNull \<Longrightarrow>
   get_B s table key id' =
     (Return (Record \<lparr>dkey = key @ ''_'' @ toString id', dvalue = v\<rparr>),
      emit (CacheGet (''c_'' @ table) (key @ ''_'' @ toString id')) s)"
  by (simp add: get_B_def Let_def cacheGet_def bind_def variableManager_has_def)

section \<open>Read after write\<close>

lemma set_B_result:
  "caches s (''c_'' @ table) = Some c \<Longrightarrow>
   set_B s table key id' val =
     (Return (),
      emit (UpdateOne table key (key @ ''_'' @ toString id') val)
        (emit (CacheSet (''c_'' @ table) (key @ ''_'' @ toString id') val)
           (s\<lparr>caches := (caches s)(''c_'' @ table \<mapsto>
                 AList.update (key @ ''_'' @ toString id') val c)\<rparr>)
         \<lparr>store := (store s)(table :=
              AList.update key
                (set_value (key @ ''_'' @ toString id') (bson val)
                   (collection_docs (store s table) key))
                (store s table))\<rparr>))"
  by (simp add: set_B_def Let_def cacheSet_Some bind_Return updateOne_def)

text \<open>
  C1, as amended. In \<^verbatim>\<open>src/unnamed/part_000\<close>, on a table that has a cache and for a
  value other than \<^verbatim>\<open>undefined\<close>, \<^verbatim>\<open>set\<close> succeeds and:
  \<^item> for a system key, \<^verbatim>\<open>get\<close> then returns the written value, both at once and after
    the cache has been cleared;
  \<^item> for a declared key that is not a system key, \<^verbatim>\<open>get\<close> returns the written value at
    once when the value is not null; after the cache has been cleared it returns the
    declared default, since this \<^verbatim>\<open>get\<close> never reads the store for such a key.
\<close>

theorem set_then_get_B:
  assumes "caches s (''c_'' @ table) = Some c" and "val \<noteq> JUndefined"
  shows "fst (set_B s table key id' val) = Return () \<and>
    (key \<in> set aoijs_vars \<longrightarrow>
       fst (get_B (snd (set_B s table key id' val)) table key id') =
         Return (Record \<lparr>dkey = key @ ''_'' @ toString id', dvalue = val\<rparr>) \<and>
       fst (get_B (clearCache table (snd (set_B s table key id' val))) table key id') =
         Return (Record \<lparr>dkey = key @ ''_'' @ toString id', dvalue = val\<rparr>)) \<and>
    (key \<notin> set aoijs_vars \<and> variables s (key, table) \<noteq> None \<longrightarrow>
       (val \<noteq> JNull \<longrightarrow>
          fst (get_B (snd (set_B s table key id' val)) table key id') =
            Return (Record \<lparr>dkey = key @ ''_'' @ toString id', dvalue = val\<rparr>)) \<and>
       fst (get_B (clearCache table (snd (set_B s table key id' val))) table key id') =
         Return (Record \<lparr>dkey = key @ ''_'' @ toString id',
                          dvalue = variableManager_default s key table\<rparr>))"
  using assms
  by (simp add: set_B_result get_B_def Let_def bind_def findOne_def cacheGet_def clearCache_def
      collection_docs_update find_set_value bson_def variableManager_has_def
      variableManager_default_def AList.update_conv')

theorem set_then_get_B_witness:
  "fst (set_B shop ''main'' ''cooldown'' (JStr ''7'') (JStr ''soon'')) = Return () \<and>
   fst (get_B (snd (set_B shop ''main'' ''cooldown'' (JStr ''7'') (JStr ''soon'')))
          ''main'' ''cooldown'' (JStr ''7'')) =
     Return (Record \<lparr>dkey = ''cooldown_7'', dvalue = JStr ''soon''\<rparr>) \<and>
   fst (get_B (clearCache ''main''
                 (snd (set_B shop ''main'' ''cooldown'' (JStr ''7'') (JStr ''soon''))))
          ''main'' ''cooldown'' (JStr ''7'')) =
     Return (Record \<lparr>dkey = ''cooldown_7'', dvalue = JStr ''soon''\<rparr>) \<and>
   fst (get_B (snd (set_B shop ''main'' ''money'' (JStr ''2'') (JNum 7)))
          ''main'' ''money'' (JStr ''2'')) =
     Return (Record \<lparr>dkey = ''money_2'', dvalue = JNum 7\<rparr>)"
proof -
  have sys: "''cooldown'' \<in> set aoijs_vars" and var: "''money'' \<notin> set aoijs_vars"
    by (simp_all add: aoijs_vars_def)
  have decl: "variables shop (''money'', ''main'') \<noteq> None"
    by (simp add: shop_def)
  from set_then_get_B [OF shop_cache, of "JStr ''soon''" "''cooldown''" "JStr ''7''"]
       set_then_get_B [OF shop_cache, of "JNum 7" "''money''" "JStr ''2''"] sys var decl
  show ?thesis by simp
qed

text \<open>
  C1 as stated fails: in \<^verbatim>\<open>src/unnamed/part_000\<close>, after \<^verbatim>\<open>set("main", "money", "2", 7)\<close>
  and with the cache cleared, \<^verbatim>\<open>get("main", "money", "2")\<close> returns the default 0.
\<close>

theorem set_then_get_counterexample:
  "fst (set_B shop ''main'' ''money'' (JStr ''2'') (JNum 7)) = Return () \<and>
   fst (get_B (clearCache ''main'' (snd (set_B shop ''main'' ''money'' (JStr ''2'') (JNum 7))))
          ''main'' ''money'' (JStr ''2'')) =
     Return (Record \<lparr>dkey = ''money_2'', dvalue = JNum 0\<rparr>) \<and>
   JNum 0 \<noteq> JNum 7"
  by (simp add: set_B_def get_B_def Let_def bind_def cacheSet_def cacheGet_def updateOne_def
      clearCache_def shop_def aoijs_vars_def variableManager_has_def variableManager_default_def)

text \<open>
  C2. In \<^verbatim>\<open>src/classes/Database.js\<close> every call of \<^verbatim>\<open>set\<close> throws a ReferenceError
  (\<^verbatim>\<open>cacheName\<close> is not bound in the function) and leaves the whole state as it was: no
  cache is written, the store receives no upsert, and no call is made at all.
\<close>

theorem set_A_always_throws: "set_A s table key id' val = (Throw ReferenceError, s)"
  by (simp add: set_A_def lookup_var_def bind_def Let_def)

section \<open>The composite key\<close>

lemma get_A_keys:
  "\<forall>e \<in> set (calls s (snd (get_A s table key id'))).
     event_key e = None \<or> event_key e = Some (if truthy id' then key @ ''_'' @ toString id' else key)"
proof (cases "caches s (''c_'' @ table)")
  case None
  then show ?thesis by (simp add: get_A_no_cache calls_def)
next
  case (Some c)
  define ck where "ck = (if truthy id' then key @ ''_'' @ toString id' else key)"
  show ?thesis
  proof (cases "(case map_of c ck of None \<Rightarrow> JUndefined | Some v \<Rightarrow> v) = JUndefined")
    case True
    show ?thesis
      unfolding get_A_miss [OF Some True ck_def] ck_def [symmetric]
      by (simp add: Let_def calls_def split: option.split)
  next
    case False
    then obtain v where "map_of c ck = Some v" "v \<noteq> JUndefined"
      by (cases "map_of c ck") auto
    then show ?thesis
      using get_A_hit [OF Some, of id' key v] by (simp add: ck_def calls_def)
  qed
qed

lemma get_A_record_key:
  "fst (get_A s table key id') = Return (Record d) \<Longrightarrow>
   dkey d = (if truthy id' then key @ ''_'' @ toString id' else key)"
proof (cases "caches s (''c_'' @ table)")
  case None
  assume "fst (get_A s table key id') = Return (Record d)"
  with None show ?thesis by (simp add: get_A_no_cache)
next
  case (Some c)
  assume r: "fst (get_A s table key id') = Return (Record d)"
  define ck where "ck = (if truthy id' then key @ ''_'' @ toString id' else key)"
  show ?thesis
  proof (cases "(case map_of c ck of None \<Rightarrow> JUndefined | Some v \<Rightarrow> v) = JUndefined")
    case True
    from r show ?thesis
      unfolding get_A_miss [OF Some True ck_def] ck_def [symmetric]
      by (auto simp add: Let_def split: option.splits if_splits)
  next
    case False
    then obtain v where "map_of c ck = Some v" "v \<noteq> JUndefined"
      by (cases "map_of c ck") auto
    then show ?thesis
      using get_A_hit [OF Some, of id' key v] r by (auto simp add: ck_def)
  qed
qed

lemma get_B_keys:
  "\<forall>e \<in> set (calls s (snd (get_B s table key id'))).
     event_key e = None \<or> event_key e = Some (key @ ''_'' @ toString id')"
  by (cases "caches s (''c_'' @ table)")
     (simp_all add: get_B_def Let_def cacheGet_def findOne_def bind_def calls_def)

lemma get_B_record_key:
  "fst (get_B s table key id') = Return (Record d) \<Longrightarrow> dkey d = key @ ''_'' @ toString id'"
  by (cases "caches s (''c_'' @ table)")
     (auto simp add: get_B_def Let_def cacheGet_def findOne_def bind_def
        dest: find_key split: if_splits option.splits)

lemma set_B_keys:
  "\<forall>e \<in> set (calls s (snd (set_B s table key id' val))).
     event_key e = None \<or> event_key e = Some (key @ ''_'' @ toString id')"
  by (cases "caches s (''c_'' @ table)")
     (simp_all add: set_B_def Let_def cacheSet_def updateOne_def bind_def calls_def)

lemma delete_loop_A_trace:
  "\<exists>evs. trace (snd (delete_loop_A table cn k cs s)) = trace s @ evs \<and>
         (\<forall>e \<in> set evs. event_key e = None \<or> event_key e = Some k)"
proof (induction cs arbitrary: s)
  case Nil
  show ?case by simp
next
  case (Cons c cs)
  show ?case
  proof (cases "find (\<lambda>d. dkey d = k) (collection_docs (store s table) c)")
    case None
    from Cons.IH [of "emit (FindOne table c k) s"] obtain evs where
      "trace (snd (delete_loop_A table cn k cs (emit (FindOne table c k) s))) =
         trace (emit (FindOne table c k) s) @ evs"
      "\<forall>e \<in> set evs. event_key e = None \<or> event_key e = Some k"
      by blast
    with None show ?thesis
      by (simp add: findOne_def bind_Return)
  next
    case (Some d)
    then show ?thesis
      by (cases "caches s cn")
         (simp_all add: findOne_def deleteOne_def cacheDelete_def bind_def)
  qed
qed

lemma delete_loop_B_trace:
  "\<exists>evs. trace (snd (delete_loop_B table cn k cs s)) = trace s @ evs \<and>
         (\<forall>e \<in> set evs. event_key e = None \<or> event_key e = Some k)"
proof (induction cs arbitrary: s)
  case Nil
  show ?case by simp
next
  case (Cons c cs)
  show ?case
  proof (cases "find (\<lambda>d. dkey d = k) (collection_docs (store s table) c)")
    case None
    from Cons.IH [of "emit (FindOne table c k) s"] obtain evs where
      "trace (snd (delete_loop_B table cn k cs (emit (FindOne table c k) s))) =
         trace (emit (FindOne table c k) s) @ evs"
      "\<forall>e \<in> set evs. event_key e = None \<or> event_key e = Some k"
      by blast
    with None show ?thesis
      by (simp add: findOne_def bind_Return)
  next
    case (Some d)
    then show ?thesis
      by (cases "caches s cn")
         (simp_all add: findOne_def deleteOne_def cacheDelete_def countDocuments_def
            dropCollection_def bind_def)
  qed
qed

lemma delete_A_keys:
  "\<forall>e \<in> set (calls s (snd (delete_A s table key id'))).
     event_key e = None \<or> event_key e = Some (if truthy id' then key @ ''_'' @ toString id' else key)"
proof -
  define ck where "ck = (if truthy id' then key @ ''_'' @ toString id' else key)"
  obtain evs where
    "trace (snd (delete_loop_A table (''c_'' @ table) ck (map fst (store s table))
        (emit (ListCollections table) s))) = trace (emit (ListCollections table) s) @ evs"
    "\<forall>e \<in> set evs. event_key e = None \<or> event_key e = Some ck"
    using delete_loop_A_trace by blast
  then show ?thesis
    unfolding ck_def [symmetric]
    by (simp add: delete_A_def Let_def listCollections_def bind_Return calls_def ck_def [symmetric])
qed

lemma delete_B_keys:
  "\<forall>e \<in> set (calls s (snd (delete_B s table key id'))).
     event_key e = None \<or> event_key e = Some (key @ ''_'' @ toString id')"
proof -
  obtain evs where
    "trace (snd (delete_loop_B table (''c_'' @ table) (key @ ''_'' @ toString id') (map fst (store s table))
        (emit (ListCollections table) s))) = trace (emit (ListCollections table) s) @ evs"
    "\<forall>e \<in> set evs. event_key e = None \<or> event_key e = Some (key @ ''_'' @ toString id')"
    using delete_loop_B_trace by blast
  then show ?thesis
    by (simp add: delete_B_def Let_def listCollections_def bind_Return calls_def)
qed

text \<open>
  C3, as amended. Each file applies one rule in \<^verbatim>\<open>get\<close>, \<^verbatim>\<open>set\<close> and \<^verbatim>\<open>delete\<close>, to
  the cache and to the store alike, but the two files differ:
  \<^item> in \<^verbatim>\<open>src/classes/Database.js\<close> every keyed call of \<^verbatim>\<open>get\<close> and \<^verbatim>\<open>delete\<close>
    addresses the key alone when the id is falsy and \<^verbatim>\<open>key + "_" + id\<close> otherwise, and a
    record returned by \<^verbatim>\<open>get\<close> carries that key;
  \<^item> in \<^verbatim>\<open>src/unnamed/part_000\<close> every keyed call of \<^verbatim>\<open>get\<close>, \<^verbatim>\<open>set\<close> and
    \<^verbatim>\<open>delete\<close> addresses \<^verbatim>\<open>key + "_" + String(id)\<close> whatever the id is, a record
    returned by \<^verbatim>\<open>get\<close> carries that key, and after \<^verbatim>\<open>set\<close> both the cache and the
    collection of the key hold the value under it.
\<close>

theorem composite_key_rule:
  "(\<forall>e \<in> set (calls s (snd (get_A s table key id')) @
              calls s (snd (delete_A s table key id'))).
      event_key e = None \<or>
      event_key e = Some (if truthy id' then key @ ''_'' @ toString id' else key)) \<and>
   (\<forall>d. fst (get_A s table key id') = Return (Record d) \<longrightarrow>
      dkey d = (if truthy id' then key @ ''_'' @ toString id' else key)) \<and>
   (\<forall>e \<in> set (calls s (snd (get_B s table key id')) @
              calls s (snd (set_B s table key id' val)) @
              calls s (snd (delete_B s table key id'))).
      event_key e = None \<or> event_key e = Some (key @ ''_'' @ toString id')) \<and>
   (\<forall>d. fst (get_B s table key id') = Return (Record d) \<longrightarrow>
      dkey d = key @ ''_'' @ toString id') \<and>
   (\<forall>c. caches s (''c_'' @ table) = Some c \<longrightarrow>
      caches (snd (set_B s table key id' val)) (''c_'' @ table) =
        Some (AList.update (key @ ''_'' @ toString id') val c) \<and>
      find (\<lambda>d. dkey d = key @ ''_'' @ toString id')
        (collection_docs (store (snd (set_B s table key id' val)) table) key) =
        Some \<lparr>dkey = key @ ''_'' @ toString id', dvalue = bson val\<rparr>)"
proof -
  have a: "\<forall>e \<in> set (calls s (snd (get_A s table key id')) @
              calls s (snd (delete_A s table key id'))).
      event_key e = None \<or>
      event_key e = Some (if truthy id' then key @ ''_'' @ toString id' else key)"
    using get_A_keys [of s table key id'] delete_A_keys [of s table key id']
    by (simp add: ball_Un)
  have b: "\<forall>e \<in> set (calls s (snd (get_B s table key id')) @
              calls s (snd (set_B s table key id' val)) @
              calls s (snd (delete_B s table key id'))).
      event_key e = None \<or> event_key e = Some (key @ ''_'' @ toString id')"
    using get_B_keys [of s table key id'] set_B_keys [of s table key id' val]
      delete_B_keys [of s table key id']
    by (simp add: ball_Un)
  have c: "\<forall>c. caches s (''c_'' @ table) = Some c \<longrightarrow>
      caches (snd (set_B s table key id' val)) (''c_'' @ table) =
        Some (AList.update (key @ ''_'' @ toString id') val c) \<and>
      find (\<lambda>d. dkey d = key @ ''_'' @ toString id')
        (collection_docs (store (snd (set_B s table key id' val)) table) key) =
        Some \<lparr>dkey = key @ ''_'' @ toString id', dvalue = bson val\<rparr>"
    by (simp add: set_B_result collection_docs_update find_set_value)
  show ?thesis
    using a b c get_A_record_key [of s table key id'] get_B_record_key [of s table key id']
    by blast
qed

theorem composite_key_rule_witness:
  "fst (get_A shop ''main'' ''money'' JUndefined) =
     Return (Record \<lparr>dkey = ''money'', dvalue = JNum 0\<rparr>) \<and>
   fst (get_A shop ''main'' ''money'' (JStr ''1'')) =
     Return (Record \<lparr>dkey = ''money_1'', dvalue = JNum 5\<rparr>) \<and>
   fst (get_B shop ''main'' ''money'' JUndefined) =
     Return (Record \<lparr>dkey = ''money_undefined'', dvalue = JNum 0\<rparr>) \<and>
   caches (snd (set_B shop ''main'' ''money'' JUndefined (JNum 7))) ''c_main'' =
     Some [(''money_1'', JNum 5), (''cooldown_1'', JNum 5), (''money_undefined'', JNum 7)] \<and>
   find (\<lambda>d. dkey d = ''money_undefined'')
     (collection_docs (store (snd (set_B shop ''main'' ''money'' JUndefined (JNum 7))) ''main'')
        ''money'') =
     Some \<lparr>dkey = ''money_undefined'', dvalue = JNum 7\<rparr>"
proof -
  have g1: "fst (get_A shop ''main'' ''money'' JUndefined) =
     Return (Record \<lparr>dkey = ''money'', dvalue = JNum 0\<rparr>)"
    by (simp add: get_A_def Let_def bind_def cacheGet_def cacheSet_def findOne_def shop_def
        aoijs_vars_def variableManager_has_def variableManager_default_def collection_docs_def)
  have g2: "fst (get_A shop ''main'' ''money'' (JStr ''1'')) =
     Return (Record \<lparr>dkey = ''money_1'', dvalue = JNum 5\<rparr>)"
    using get_A_hit [OF shop_cache, of "JStr ''1''" "''money''" "JNum 5"] by simp
  have g3: "fst (get_B shop ''main'' ''money'' JUndefined) =
     Return (Record \<lparr>dkey = ''money_undefined'', dvalue = JNum 0\<rparr>)"
    by (simp add: get_B_def Let_def bind_def cacheGet_def shop_def
        aoijs_vars_def variableManager_has_def variableManager_default_def)
  from composite_key_rule [of shop "''main''" "''money''" JUndefined "JNum 7"] shop_cache
  have "caches (snd (set_B shop ''main'' ''money'' JUndefined (JNum 7))) (''c_'' @ ''main'') =
        Some (AList.update (''money'' @ ''_'' @ toString JUndefined) (JNum 7)
                [(''money_1'', JNum 5), (''cooldown_1'', JNum 5)]) \<and>
      find (\<lambda>d. dkey d = ''money'' @ ''_'' @ toString JUndefined)
        (collection_docs (store (snd (set_B shop ''main'' ''money'' JUndefined (JNum 7))) ''main'')
           ''money'') =
        Some \<lparr>dkey = ''money'' @ ''_'' @ toString JUndefined, dvalue = bson (JNum 7)\<rparr>"
    by blast
  with g1 g2 g3 show ?thesis by (simp add: bson_def)
qed

text \<open>
  C3 as stated fails in \<^verbatim>\<open>src/unnamed/part_000\<close>: with the id absent,
  \<^verbatim>\<open>get("main", "money")\<close> reads the cache under \<^verbatim>\<open>money_undefined\<close> and returns a record
  with that key, not the key alone.
\<close>

theorem composite_key_counterexample:
  "\<not> truthy JUndefined \<and>
   fst (get_B shop ''main'' ''money'' JUndefined) =
     Return (Record \<lparr>dkey = ''money_undefined'', dvalue = JNum 0\<rparr>) \<and>
   calls shop (snd (get_B shop ''main'' ''money'' JUndefined)) =
     [CacheGet ''c_main'' ''money_undefined''] \<and>
   ''money_undefined'' \<noteq> ''money''"
  by (simp add: get_B_def Let_def bind_def cacheGet_def shop_def calls_def
      aoijs_vars_def variableManager_has_def variableManager_default_def)

section \<open>The cache-hit path and the calls of get\<close>

lemma get_A_bounds:
  "length (filter collection_read (calls s (snd (get_A s table key id')))) \<le> 1 \<and>
   length (filter cache_write (calls s (snd (get_A s table key id')))) \<le> 1 \<and>
   store (snd (get_A s table key id')) = store s"
proof (cases "caches s (''c_'' @ table)")
  case None
  then show ?thesis by (simp add: get_A_no_cache calls_def)
next
  case (Some c)
  define ck where "ck = (if truthy id' then key @ ''_'' @ toString id' else key)"
  show ?thesis
  proof (cases "(case map_of c ck of None \<Rightarrow> JUndefined | Some v \<Rightarrow> v) = JUndefined")
    case True
    show ?thesis
      unfolding get_A_miss [OF Some True ck_def]
      by (simp add: Let_def calls_def split: option.split)
  next
    case False
    then obtain v where "map_of c ck = Some v" "v \<noteq> JUndefined"
      by (cases "map_of c ck") auto
    then show ?thesis
      using get_A_hit [OF Some, of id' key v] by (simp add: ck_def calls_def)
  qed
qed

lemma get_B_bounds:
  "length (filter collection_read (calls s (snd (get_B s table key id')))) \<le> 1 \<and>
   filter cache_write (calls s (snd (get_B s table key id'))) = [] \<and>
   caches (snd (get_B s table key id')) = caches s \<and>
   store (snd (get_B s table key id')) = store s"
proof (cases "caches s (''c_'' @ table)")
  case None
  then show ?thesis
    by (simp add: get_B_def Let_def cacheGet_def findOne_def bind_def calls_def)
next
  case (Some c)
  then show ?thesis
    by (simp add: get_B_def Let_def cacheGet_def findOne_def bind_def calls_def)
qed

text \<open>
  C5, as amended.
  \<^item> In \<^verbatim>\<open>src/classes/Database.js\<close>, when the cache of the table holds a value other than
    \<^verbatim>\<open>undefined\<close> under the composite key, \<^verbatim>\<open>get\<close> returns it and its only call is that
    cache read.
  \<^item> In \<^verbatim>\<open>src/unnamed/part_000\<close> the same holds for a declared key that is not a system
    key, when the cached value is neither \<^verbatim>\<open>undefined\<close> nor null; for a system key
    \<^verbatim>\<open>get\<close> makes exactly one call, a \<^verbatim>\<open>findOne\<close> on the store, whatever the cache
    holds.
  \<^item> In both files a \<^verbatim>\<open>get\<close> reads a collection at most once, writes a cache at most once
    (never, in \<^verbatim>\<open>part_000\<close>) and leaves the store as it was.
\<close>

theorem get_cache_hit:
  "(\<forall>c v. caches s (''c_'' @ table) = Some c \<and>
          map_of c (if truthy id' then key @ ''_'' @ toString id' else key) = Some v \<and>
          v \<noteq> JUndefined \<longrightarrow>
      fst (get_A s table key id') =
        Return (Record \<lparr>dkey = (if truthy id' then key @ ''_'' @ toString id' else key),
                         dvalue = v\<rparr>) \<and>
      calls s (snd (get_A s table key id')) =
        [CacheGet (''c_'' @ table) (if truthy id' then key @ ''_'' @ toString id' else key)] \<and>
      caches (snd (get_A s table key id')) = caches s) \<and>
   length (filter collection_read (calls s (snd (get_A s table key id')))) \<le> 1 \<and>
   length (filter cache_write (calls s (snd (get_A s table key id')))) \<le> 1 \<and>
   store (snd (get_A s table key id')) = store s \<and>
   (\<forall>c v. key \<notin> set aoijs_vars \<and> variables s (key, table) \<noteq> None \<and>
          caches s (''c_'' @ table) = Some c \<and>
          map_of c (key @ ''_'' @ toString id') = Some v \<and> v \<noteq> JUndefined \<and> v \<noteq> JNull \<longrightarrow>
      fst (get_B s table key id') =
        Return (Record \<lparr>dkey = key @ ''_'' @ toString id', dvalue = v\<rparr>) \<and>
      calls s (snd (get_B s table key id')) =
        [CacheGet (''c_'' @ table) (key @ ''_'' @ toString id')]) \<and>
   (key \<in> set aoijs_vars \<longrightarrow>
      calls s (snd (get_B s table key id')) =
        [FindOne table key (key @ ''_'' @ toString id')]) \<and>
   length (filter collection_read (calls s (snd (get_B s table key id')))) \<le> 1 \<and>
   filter cache_write (calls s (snd (get_B s table key id'))) = [] \<and>
   caches (snd (get_B s table key id')) = caches s \<and>
   store (snd (get_B s table key id')) = store s"
proof -
  have a: "\<forall>c v. caches s (''c_'' @ table) = Some c \<and>
          map_of c (if truthy id' then key @ ''_'' @ toString id' else key) = Some v \<and>
          v \<noteq> JUndefined \<longrightarrow>
      fst (get_A s table key id') =
        Return (Record \<lparr>dkey = (if truthy id' then key @ ''_'' @ toString id' else key),
                         dvalue = v\<rparr>) \<and>
      calls s (snd (get_A s table key id')) =
        [CacheGet (''c_'' @ table) (if truthy id' then key @ ''_'' @ toString id' else key)] \<and>
      caches (snd (get_A s table key id')) = caches s"
    by (auto simp add: get_A_hit calls_def simp del: append.simps)
  have b: "\<forall>c v. key \<notin> set aoijs_vars \<and> variables s (key, table) \<noteq> None \<and>
          caches s (''c_'' @ table) = Some c \<and>
          map_of c (key @ ''_'' @ toString id') = Some v \<and> v \<noteq> JUndefined \<and> v \<noteq> JNull \<longrightarrow>
      fst (get_B s table key id') =
        Return (Record \<lparr>dkey = key @ ''_'' @ toString id', dvalue = v\<rparr>) \<and>
      calls s (snd (get_B s table key id')) =
        [CacheGet (''c_'' @ table) (key @ ''_'' @ toString id')]"
    by (auto simp add: get_B_hit calls_def simp del: append.simps)
  have c: "key \<in> set aoijs_vars \<longrightarrow>
      calls s (snd (get_B s table key id')) =
        [FindOne table key (key @ ''_'' @ toString id')]"
    by (simp add: get_B_def Let_def findOne_def bind_def calls_def)
  show ?thesis
    using a b c get_A_bounds [of s table key id'] get_B_bounds [of s table key id']
    by blast
qed

theorem get_cache_hit_witness:
  "fst (get_A shop ''main'' ''cooldown'' (JStr ''1'')) =
     Return (Record \<lparr>dkey = ''cooldown_1'', dvalue = JNum 5\<rparr>) \<and>
   calls shop (snd (get_A shop ''main'' ''cooldown'' (JStr ''1''))) =
     [CacheGet ''c_main'' ''cooldown_1''] \<and>
   fst (get_B shop ''main'' ''money'' (JStr ''1'')) =
     Return (Record \<lparr>dkey = ''money_1'', dvalue = JNum 5\<rparr>) \<and>
   calls shop (snd (get_B shop ''main'' ''money'' (JStr ''1''))) =
     [CacheGet ''c_main'' ''money_1''] \<and>
   calls shop (snd (get_B shop ''main'' ''cooldown'' (JStr ''1''))) =
     [FindOne ''main'' ''cooldown'' ''cooldown_1'']"
proof -
  have k: "''money'' \<notin> set aoijs_vars" "''cooldown'' \<in> set aoijs_vars"
    by (simp_all add: aoijs_vars_def)
  have v: "variables shop (''money'', ''main'') \<noteq> None" by (simp add: shop_def)
  have m: "map_of [(''money_1'', JNum 5), (''cooldown_1'', JNum 5)] ''cooldown_1'' = Some (JNum 5)"
    "map_of [(''money_1'', JNum 5), (''cooldown_1'', JNum 5)] ''money_1'' = Some (JNum 5)"
    by simp_all
  from get_cache_hit [of shop "''main''" "JStr ''1''" "''cooldown''"]
       get_cache_hit [of shop "''main''" "JStr ''1''" "''money''"] k v m shop_cache
  show ?thesis by simp
qed

text \<open>
  C5 as stated fails in \<^verbatim>\<open>src/unnamed/part_000\<close>: the cache holds 5 under
  \<^verbatim>\<open>cooldown_1\<close>, yet \<^verbatim>\<open>get("main", "cooldown", "1")\<close> calls \<^verbatim>\<open>findOne\<close> on the store
  and returns null.
\<close>

theorem get_cache_hit_counterexample:
  "caches shop ''c_main'' = Some [(''money_1'', JNum 5), (''cooldown_1'', JNum 5)] \<and>
   map_of [(''money_1'', JNum 5), (''cooldown_1'', JNum 5)] ''cooldown_1'' = Some (JNum 5) \<and>
   fst (get_B shop ''main'' ''cooldown'' (JStr ''1'')) = Return NullResult \<and>
   calls shop (snd (get_B shop ''main'' ''cooldown'' (JStr ''1''))) =
     [FindOne ''main'' ''cooldown'' ''cooldown_1''] \<and>
   store_access (FindOne ''main'' ''cooldown'' ''cooldown_1'')"
  by (simp add: get_B_def Let_def bind_def findOne_def shop_def calls_def aoijs_vars_def
      collection_docs_def)

section \<open>Misses\<close>

text \<open>
  C9, as amended. For a system key whose collection holds no document under the composite
  key: in \<^verbatim>\<open>src/classes/Database.js\<close>, when the cache of the table has no entry for the
  composite key either, \<^verbatim>\<open>get\<close> returns the record with that key and the value null; in
  \<^verbatim>\<open>src/unnamed/part_000\<close>, \<^verbatim>\<open>get\<close> returns null itself, the result of the store's
  \<^verbatim>\<open>findOne\<close>. Neither consults a default, and neither changes a cache or the store.
\<close>

theorem system_key_miss:
  assumes "key \<in> set aoijs_vars"
  shows
    "(\<forall>c. caches s (''c_'' @ table) = Some c \<and>
          map_of c (if truthy id' then key @ ''_'' @ toString id' else key) = None \<and>
          find (\<lambda>d. dkey d = (if truthy id' then key @ ''_'' @ toString id' else key))
            (collection_docs (store s table) key) = None \<longrightarrow>
          fst (get_A s table key id') =
            Return (Record \<lparr>dkey = (if truthy id' then key @ ''_'' @ toString id' else key),
                             dvalue = JNull\<rparr>) \<and>
          caches (snd (get_A s table key id')) = caches s \<and>
          store (snd (get_A s table key id')) = store s) \<and>
     (find (\<lambda>d. dkey d = key @ ''_'' @ toString id') (collection_docs (store s table) key) = None \<longrightarrow>
          fst (get_B s table key id') = Return NullResult \<and>
          caches (snd (get_B s table key id')) = caches s \<and>
          store (snd (get_B s table key id')) = store s)"
  using assms
  by (simp add: get_B_def get_A_def Let_def cacheGet_def findOne_def bind_def)

theorem system_key_miss_witness:
  "fst (get_A shop ''main'' ''cooldown'' (JStr ''2'')) =
     Return (Record \<lparr>dkey = ''cooldown_2'', dvalue = JNull\<rparr>) \<and>
   fst (get_B shop ''main'' ''cooldown'' (JStr ''2'')) = Return NullResult"
proof -
  have k: "''cooldown'' \<in> set aoijs_vars" by (simp add: aoijs_vars_def)
  have f: "collection_docs (store shop ''main'') ''cooldown'' = []"
    by (simp add: shop_def collection_docs_def)
  from system_key_miss [OF k, of shop "''main''" "JStr ''2''"] shop_cache f
  show ?thesis by simp
qed

text \<open>
  C9 as stated fails in \<^verbatim>\<open>src/unnamed/part_000\<close>: \<^verbatim>\<open>cooldown\<close> is a system key, the cache
  has no entry \<^verbatim>\<open>cooldown_2\<close>, the collection \<^verbatim>\<open>cooldown\<close> holds no document, and
  \<^verbatim>\<open>get("main", "cooldown", "2")\<close> returns null, not a record.
\<close>

theorem system_key_miss_counterexample:
  "''cooldown'' \<in> set aoijs_vars \<and>
   caches shop ''c_main'' = Some [(''money_1'', JNum 5), (''cooldown_1'', JNum 5)] \<and>
   collection_docs (store shop ''main'') ''cooldown'' = [] \<and>
   fst (get_B shop ''main'' ''cooldown'' (JStr ''2'')) = Return NullResult \<and>
   NullResult \<noteq> Record \<lparr>dkey = ''cooldown_2'', dvalue = JNull\<rparr>"
  by (simp add: get_B_def Let_def findOne_def bind_def aoijs_vars_def shop_def collection_docs_def)

text \<open>
  C10. For a key that is not a system key and that the registry does not declare for the
  table, \<^verbatim>\<open>get\<close> returns no result (\<^verbatim>\<open>undefined\<close>), throws nothing and changes neither
  a cache nor the store: in \<^verbatim>\<open>src/unnamed/part_000\<close> always, and in
  \<^verbatim>\<open>src/classes/Database.js\<close> whenever the cache of the table has no entry for the
  composite key.
\<close>

theorem get_unknown_key:
  assumes "key \<notin> set aoijs_vars" and "variables s (key, table) = None"
  shows "get_B s table key id' = (Return NoResult, s) \<and>
    (\<forall>c. caches s (''c_'' @ table) = Some c \<and>
         map_of c (if truthy id' then key @ ''_'' @ toString id' else key) = None \<longrightarrow>
         fst (get_A s table key id') = Return NoResult \<and>
         caches (snd (get_A s table key id')) = caches s \<and>
         store (snd (get_A s table key id')) = store s)"
  using assms
  by (simp add: get_B_def get_A_def Let_def variableManager_has_def cacheGet_def bind_def)

theorem get_unknown_key_witness:
  "get_B shop ''main'' ''level'' (JStr ''1'') = (Return NoResult, shop) \<and>
   fst (get_A shop ''main'' ''level'' (JStr ''1'')) = Return NoResult \<and>
   caches (snd (get_A shop ''main'' ''level'' (JStr ''1''))) = caches shop \<and>
   store (snd (get_A shop ''main'' ''level'' (JStr ''1''))) = store shop"
proof -
  have k: "''level'' \<notin> set aoijs_vars" by (simp add: aoijs_vars_def)
  have v: "variables shop (''level'', ''main'') = None" by (simp add: shop_def)
  from get_unknown_key [OF k v, of "JStr ''1''"] shop_cache show ?thesis by simp
qed

section \<open>drop\<close>

lemma evict_keys_effect:
  "caches s cn = Some c \<Longrightarrow>
   fst (evict_keys cn ks s) = Return () \<and>
   caches (snd (evict_keys cn ks s)) = (caches s)(cn \<mapsto> filter (\<lambda>p. fst p \<notin> set ks) c) \<and>
   store (snd (evict_keys cn ks s)) = store s \<and>
   variables (snd (evict_keys cn ks s)) = variables s \<and>
   debug (snd (evict_keys cn ks s)) = debug s \<and>
   trace (snd (evict_keys cn ks s)) = trace s @ map (CacheDelete cn) ks"
proof (induction ks arbitrary: s c)
  case Nil
  then show ?case by (simp add: fun_upd_idem)
next
  case (Cons k ks)
  let ?s1 = "emit (CacheDelete cn k) (s\<lparr>caches := (caches s)(cn \<mapsto> AList.delete k c)\<rparr>)"
  have step: "cacheDelete cn k s = (Return (), ?s1)"
    using Cons.prems by (simp add: cacheDelete_def)
  have c1: "caches ?s1 cn = Some (AList.delete k c)" by simp
  have flt: "filter (\<lambda>p. fst p \<notin> set ks) (AList.delete k c) = filter (\<lambda>p. fst p \<notin> set (k # ks)) c"
    by (induction c) auto
  from Cons.IH [OF c1] show ?case
    by (simp add: step bind_Return flt fun_eq_iff)
qed

text \<open>
  In \<^verbatim>\<open>src/classes/Database.js\<close> a drop of the whole table empties the cache of the
  table, and every later \<^verbatim>\<open>get\<close> resolves afresh: null for a system key, no result for
  an undeclared key, the default for a declared key.
\<close>

lemma drop_A_clears:
  assumes "caches s (''c_'' @ table) = Some c"
  shows "fst (drop_A s table None) = Return () \<and>
         caches (snd (drop_A s table None)) = (caches s)(''c_'' @ table \<mapsto> []) \<and>
         store (snd (drop_A s table None)) = (store s)(table := []) \<and>
         variables (snd (drop_A s table None)) = variables s"
proof -
  let ?s1 = "emit (DropDatabase table) (s\<lparr>store := (store s)(table := [])\<rparr>)"
  have c1: "caches ?s1 (''c_'' @ table) = Some c" using assms by simp
  have d: "drop_A s table None = evict_keys (''c_'' @ table) (map fst c) ?s1"
    using assms by (simp add: drop_A_def drop_store_def dropDatabase_def bind_Return Let_def)
  have e: "filter (\<lambda>p. fst p \<notin> set (map fst c)) c = []"
    by (induction c) auto
  from evict_keys_effect [OF c1, of "map fst c"] show ?thesis
    by (simp add: d e)
qed

lemma drop_A_then_get:
  assumes "caches s (''c_'' @ table) = Some c"
  shows "fst (get_A (snd (drop_A s table None)) table key id') =
     Return (if key \<in> set aoijs_vars
             then Record \<lparr>dkey = (if truthy id' then key @ ''_'' @ toString id' else key), dvalue = JNull\<rparr>
             else if variables s (key, table) = None then NoResult
             else Record \<lparr>dkey = (if truthy id' then key @ ''_'' @ toString id' else key),
                           dvalue = variableManager_default s key table\<rparr>)"
proof -
  let ?s' = "snd (drop_A s table None)"
  define ck where "ck = (if truthy id' then key @ ''_'' @ toString id' else key)"
  from drop_A_clears [OF assms] have
    c: "caches ?s' (''c_'' @ table) = Some []" and st: "store ?s' table = []"
    and v: "variables ?s' = variables s"
    by simp_all
  have m: "(case map_of ([]::(string \<times> jsval) list) ck of None \<Rightarrow> JUndefined | Some v \<Rightarrow> v) = JUndefined"
    by simp
  show ?thesis
    unfolding get_A_miss [OF c m ck_def] ck_def [symmetric]
    by (simp add: Let_def st v collection_docs_def variableManager_default_def)
qed

text \<open>
  In \<^verbatim>\<open>src/unnamed/part_000\<close> a drop never returns normally and never changes a cache.
\<close>

lemma drop_B_keeps_caches:
  "caches (snd (drop_B s table variable)) = caches s \<and>
   fst (drop_B s table variable) \<noteq> Return ()"
  by (cases variable)
     (simp_all add: drop_B_def drop_store_def dropDatabase_def dropCollection_def bind_def)

text \<open>
  C4, at a failing input of \<^verbatim>\<open>src/unnamed/part_000\<close>. The cache of \<^verbatim>\<open>main\<close> holds 5
  under \<^verbatim>\<open>money_1\<close> and the default of \<^verbatim>\<open>money\<close> is 0. \<^verbatim>\<open>drop("main")\<close> empties the
  store of the table, throws a TypeError and leaves the cache as it was; the following
  \<^verbatim>\<open>get("main", "money", "1")\<close> returns the cached 5, although the store is empty.
\<close>

theorem drop_B_leaves_stale_cache:
  "fst (drop_B shop ''main'' None) = Throw TypeError \<and>
   store (snd (drop_B shop ''main'' None)) ''main'' = [] \<and>
   caches (snd (drop_B shop ''main'' None)) ''c_main'' =
     Some [(''money_1'', JNum 5), (''cooldown_1'', JNum 5)] \<and>
   variableManager_default shop ''money'' ''main'' = JNum 0 \<and>
   fst (get_B (snd (drop_B shop ''main'' None)) ''main'' ''money'' (JStr ''1'')) =
     Return (Record \<lparr>dkey = ''money_1'', dvalue = JNum 5\<rparr>)"
  by (simp add: drop_B_def drop_store_def dropDatabase_def bind_def get_B_def Let_def
      cacheGet_def shop_def aoijs_vars_def variableManager_has_def variableManager_default_def)

section \<open>deleteMany\<close>

lemma keysToDelete_function:
  "keysToDelete s table (QFunction f) ks acc =
     Return (acc @ filter (\<lambda>key. variables s (takeWhile (\<lambda>c. c \<noteq> CHR ''_'') key, table) \<noteq> None \<and>
                                variables s (takeWhile (\<lambda>c. c \<noteq> CHR ''_'') key, table) \<noteq> Some JUndefined \<and>
                                f (ArgStr (takeWhile (\<lambda>c. c \<noteq> CHR ''_'') key))) ks)"
  by (induction ks arbitrary: acc)
     (auto simp add: Let_def variableManager_has_def variableManager_default_def
        split: option.splits)

lemma keysToDelete_absent: "keysToDelete s table QUndefined ks acc = Return acc"
  by (induction ks arbitrary: acc) (simp_all add: Let_def)

lemma deleteMany_loop_effect:
  "fst (deleteMany_loop m table cs s) = Return () \<and>
   caches (snd (deleteMany_loop m table cs s)) = caches s \<and>
   trace (snd (deleteMany_loop m table cs s)) = trace s @ map (DeleteMany table) cs"
proof (induction cs arbitrary: s)
  case Nil
  show ?case by simp
next
  case (Cons c cs)
  show ?case
    using Cons.IH [of "emit (DeleteMany table c)
        (s\<lparr>store := (store s)(table := on_collection c (filter (\<lambda>d. \<not> m d)) (store s table))\<rparr>)"]
    by (simp add: deleteMany_docs_def bind_Return)
qed

text \<open>
  In \<^verbatim>\<open>src/unnamed/part_000\<close>, for a predicate function: the entries evicted are exactly
  those whose key, cut at the first underscore, is declared for the table with a defined
  default and satisfies the predicate; the calls are these evictions, the listing of the
  collections, and one \<^verbatim>\<open>deleteMany\<close> on every collection of the table.
\<close>

lemma deleteMany_B_function:
  assumes "caches s (''c_'' @ table) = Some c"
  shows "fst (deleteMany_B fnFilter s table (QFunction f)) = Return () \<and>
    caches (snd (deleteMany_B fnFilter s table (QFunction f))) =
      (caches s)(''c_'' @ table \<mapsto>
         filter (\<lambda>p. \<not> (variables s (takeWhile (\<lambda>c. c \<noteq> CHR ''_'') (fst p), table) \<noteq> None \<and>
                        variables s (takeWhile (\<lambda>c. c \<noteq> CHR ''_'') (fst p), table) \<noteq> Some JUndefined \<and>
                        f (ArgStr (takeWhile (\<lambda>c. c \<noteq> CHR ''_'') (fst p))))) c) \<and>
    calls s (snd (deleteMany_B fnFilter s table (QFunction f))) =
      map (CacheDelete (''c_'' @ table))
        (filter (\<lambda>key. variables s (takeWhile (\<lambda>c. c \<noteq> CHR ''_'') key, table) \<noteq> None \<and>
                        variables s (takeWhile (\<lambda>c. c \<noteq> CHR ''_'') key, table) \<noteq> Some JUndefined \<and>
                        f (ArgStr (takeWhile (\<lambda>c. c \<noteq> CHR ''_'') key))) (map fst c))
      @ ListCollections table # map (DeleteMany table) (map fst (store s table))"
proof -
  define ev where "ev = (\<lambda>key. variables s (takeWhile (\<lambda>c. c \<noteq> CHR ''_'') key, table) \<noteq> None \<and>
                        variables s (takeWhile (\<lambda>c. c \<noteq> CHR ''_'') key, table) \<noteq> Some JUndefined \<and>
                        f (ArgStr (takeWhile (\<lambda>c. c \<noteq> CHR ''_'') key)))"
  define cn where "cn = ''c_'' @ table"
  define ks where "ks = filter ev (map fst c)"
  define s1 where "s1 = snd (evict_keys cn ks s)"
  define s2 where "s2 = emit (ListCollections table) s1"
  have c: "caches s cn = Some c" using assms by (simp add: cn_def)
  have k: "keysToDelete s table (QFunction f) (map fst c) [] = Return ks"
    by (simp add: keysToDelete_function ev_def ks_def)
  note e = evict_keys_effect [OF c, of ks, folded s1_def]
  have e1: "evict_keys cn ks s = (Return (), s1)"
    using e by (cases "evict_keys cn ks s") (simp add: s1_def)
  have st: "store s1 = store s" using e by simp
  have d: "deleteMany_B fnFilter s table (QFunction f) =
      deleteMany_loop (fnFilter f) table (map fst (store s table)) s2"
    unfolding deleteMany_B_def Let_def cn_def [symmetric]
    by (simp add: c k bind_Return e1 listCollections_def query_matches_def s2_def st)
  have flt: "filter (\<lambda>p. fst p \<notin> set ks) c = filter (\<lambda>p. \<not> ev (fst p)) c"
    unfolding ks_def by (rule filter_cong) auto
  have t2: "trace s2 = trace s @ map (CacheDelete cn) ks @ [ListCollections table]"
    using e by (simp add: s2_def)
  have c2: "caches s2 = (caches s)(cn \<mapsto> filter (\<lambda>p. \<not> ev (fst p)) c)"
    using e by (simp add: s2_def flt)
  from deleteMany_loop_effect [of "fnFilter f" table "map fst (store s table)" s2]
  show ?thesis
    unfolding ev_def [symmetric] d cn_def [symmetric] ks_def [symmetric]
    by (simp add: calls_def t2 c2 ev_def)
qed

text \<open>
  \<^verbatim>\<open>src/classes/Database.js\<close> does the same while \<^verbatim>\<open>debug\<close> is off; with \<^verbatim>\<open>debug\<close> on
  it throws a ReferenceError after the scan of the cache and changes nothing.
\<close>

lemma deleteMany_A_quiet:
  "\<not> debug s \<Longrightarrow> deleteMany_A fnFilter s table query = deleteMany_B fnFilter s table query"
proof (cases "caches s (''c_'' @ table)")
  case None
  then show ?thesis by (simp add: deleteMany_A_def deleteMany_B_def Let_def)
next
  case (Some c)
  assume "\<not> debug s"
  with Some show ?thesis
    by (cases "keysToDelete s table query (map fst c) []")
       (simp_all add: deleteMany_A_def deleteMany_B_def Let_def bind_Return bind_Throw)
qed

lemma deleteMany_A_debug:
  "debug s \<Longrightarrow> caches s (''c_'' @ table) = Some c \<Longrightarrow>
   deleteMany_A fnFilter s table (QFunction f) = (Throw ReferenceError, s)"
  by (simp add: deleteMany_A_def Let_def keysToDelete_function bind_Return lookup_var_def bind_Throw)

text \<open>
  C6, at a failing input of \<^verbatim>\<open>src/classes/Database.js\<close>: with \<^verbatim>\<open>debug\<close> on,
  \<^verbatim>\<open>deleteMany("main", k => true)\<close> throws a ReferenceError and leaves the state as it
  was, with \<^verbatim>\<open>money_1\<close> still cached and no \<^verbatim>\<open>deleteMany\<close> sent to the store. On the
  same input \<^verbatim>\<open>src/unnamed/part_000\<close> evicts \<^verbatim>\<open>money_1\<close>.
\<close>

theorem deleteMany_A_debug_throws:
  "deleteMany_A fnFilter (shop\<lparr>debug := True\<rparr>) ''main'' (QFunction (\<lambda>_. True)) =
     (Throw ReferenceError, shop\<lparr>debug := True\<rparr>) \<and>
   caches (snd (deleteMany_B fnFilter (shop\<lparr>debug := True\<rparr>) ''main'' (QFunction (\<lambda>_. True)))) ''c_main'' =
     Some [(''cooldown_1'', JNum 5)]"
proof -
  have c: "caches (shop\<lparr>debug := True\<rparr>) (''c_'' @ ''main'') = Some [(''money_1'', JNum 5), (''cooldown_1'', JNum 5)]"
    by (simp add: shop_def)
  have a: "deleteMany_A fnFilter (shop\<lparr>debug := True\<rparr>) ''main'' (QFunction (\<lambda>_. True)) =
     (Throw ReferenceError, shop\<lparr>debug := True\<rparr>)"
    by (rule deleteMany_A_debug [OF _ c]) simp
  have v: "variables (shop\<lparr>debug := True\<rparr>) = [(''money'', ''main'') \<mapsto> JNum 0]"
    by (simp add: shop_def)
  from deleteMany_B_function [OF c, of fnFilter "\<lambda>_. True"] a show ?thesis
    by (simp add: v)
qed

section \<open>findMany\<close>

lemma findMany_loop_result:
  "fst (findMany_loop table q limit cs acc s) =
     Return (acc @ concat (map (\<lambda>c.
        (case limit of Some n \<Rightarrow> if n \<noteq> 0 then (\<lambda>ds. slice0 ds n) else (\<lambda>ds. ds) | None \<Rightarrow> (\<lambda>ds. ds))
          (case q of
             QFunction f \<Rightarrow> filter (\<lambda>d. f (ArgDoc d)) (collection_docs (store s table) c)
           | QFilter m \<Rightarrow> filter m (collection_docs (store s table) c)
           | QUndefined \<Rightarrow> collection_docs (store s table) c)) cs)) \<and>
   store (snd (findMany_loop table q limit cs acc s)) = store s \<and>
   caches (snd (findMany_loop table q limit cs acc s)) = caches s"
proof (induction cs arbitrary: acc s)
  case Nil
  show ?case by simp
next
  case (Cons c cs)
  have st: "store (emit (Find table c) s) = store s" by simp
  show ?case
  proof (cases q)
    case QUndefined
    then show ?thesis
      using Cons.IH [of _ "emit (Find table c) s"]
      by (cases limit) (simp_all add: find_docs_def bind_Return)
  next
    case (QFunction f)
    then show ?thesis
      using Cons.IH [of _ "emit (Find table c) s"]
      by (cases limit) (simp_all add: find_docs_def bind_Return)
  next
    case (QFilter m)
    then show ?thesis
      using Cons.IH [of _ "emit (Find table c) s"]
      by (cases limit) (simp_all add: find_docs_def bind_Return)
  qed
qed

lemma length_concat_take:
  "length (concat (map (\<lambda>c. take k (g c)) cs)) \<le> k * length cs"
  by (induction cs) (simp_all add: add_mono)

text \<open>
  C8, as amended. For a positive limit, \<^verbatim>\<open>findMany\<close> returns the concatenation, in
  listing order, of every collection's matching documents, each collection cut to its first
  \<^verbatim>\<open>limit\<close> documents before the concatenation; the result has at most \<^verbatim>\<open>limit\<close> times
  the number of collections elements. With the limit absent or 0 nothing is cut.
\<close>

theorem findMany_per_collection:
  assumes "0 < n"
  shows
   "fst (findMany s table q (Some n)) =
      Return (concat (map (\<lambda>c. take (nat n)
         (case q of
            QFunction f \<Rightarrow> filter (\<lambda>d. f (ArgDoc d)) (collection_docs (store s table) c)
          | QFilter m \<Rightarrow> filter m (collection_docs (store s table) c)
          | QUndefined \<Rightarrow> collection_docs (store s table) c)) (map fst (store s table)))) \<and>
    (\<exists>r. fst (findMany s table q (Some n)) = Return r \<and>
         length r \<le> nat n * length (store s table)) \<and>
    fst (findMany s table q None) =
      Return (concat (map (\<lambda>c.
         (case q of
            QFunction f \<Rightarrow> filter (\<lambda>d. f (ArgDoc d)) (collection_docs (store s table) c)
          | QFilter m \<Rightarrow> filter m (collection_docs (store s table) c)
          | QUndefined \<Rightarrow> collection_docs (store s table) c)) (map fst (store s table)))) \<and>
    fst (findMany s table q (Some 0)) = fst (findMany s table q None)"
proof -
  have st: "store (emit (ListCollections table) s) = store s" by simp
  have f: "\<And>limit. findMany s table q limit =
      findMany_loop table q limit (map fst (store s table)) [] (emit (ListCollections table) s)"
    by (simp add: findMany_def listCollections_def bind_Return)
  note r = findMany_loop_result [of table q _ "map fst (store s table)" "[]"
      "emit (ListCollections table) s", unfolded st]
  have a: "fst (findMany s table q (Some n)) =
      Return (concat (map (\<lambda>c. take (nat n)
         (case q of
            QFunction f \<Rightarrow> filter (\<lambda>d. f (ArgDoc d)) (collection_docs (store s table) c)
          | QFilter m \<Rightarrow> filter m (collection_docs (store s table) c)
          | QUndefined \<Rightarrow> collection_docs (store s table) c)) (map fst (store s table))))"
    using assms r [of "Some n"] by (simp add: f slice0_def)
  have b: "length (concat (map (\<lambda>c. take (nat n)
         (case q of
            QFunction f \<Rightarrow> filter (\<lambda>d. f (ArgDoc d)) (collection_docs (store s table) c)
          | QFilter m \<Rightarrow> filter m (collection_docs (store s table) c)
          | QUndefined \<Rightarrow> collection_docs (store s table) c)) (map fst (store s table))))
       \<le> nat n * length (store s table)"
    using length_concat_take [of "nat n" _ "map fst (store s table)"] by simp
  have c: "fst (findMany s table q None) =
      Return (concat (map (\<lambda>c.
         (case q of
            QFunction f \<Rightarrow> filter (\<lambda>d. f (ArgDoc d)) (collection_docs (store s table) c)
          | QFilter m \<Rightarrow> filter m (collection_docs (store s table) c)
          | QUndefined \<Rightarrow> collection_docs (store s table) c)) (map fst (store s table))))"
    using r [of None] by (simp add: f)
  have d: "fst (findMany s table q (Some 0)) = fst (findMany s table q None)"
    using r [of None] r [of "Some 0"] by (simp add: f)
  from a b c d show ?thesis by simp
qed

theorem findMany_per_collection_witness:
  "fst (findMany ledger ''main'' QUndefined (Some 1)) =
     Return [\<lparr>dkey = ''x'', dvalue = JNum 1\<rparr>, \<lparr>dkey = ''y'', dvalue = JNum 5\<rparr>]"
proof -
  have "(0::int) < 1" by simp
  from findMany_per_collection [OF this, of ledger "''main''" QUndefined]
  show ?thesis by (simp add: ledger_def collection_docs_def)
qed

text \<open>
  C8 as stated fails for the limit 0: \<^verbatim>\<open>if (limit)\<close> treats it as absent, and
  \<^verbatim>\<open>findMany("main", undefined, 0)\<close> returns both documents.
\<close>

theorem findMany_limit_zero_counterexample:
  "fst (findMany ledger ''main'' QUndefined (Some 0)) =
     Return [\<lparr>dkey = ''x'', dvalue = JNum 1\<rparr>, \<lparr>dkey = ''y'', dvalue = JNum 5\<rparr>] \<and>
   \<not> length [\<lparr>dkey = ''x'', dvalue = JNum 1\<rparr>, \<lparr>dkey = ''y'', dvalue = JNum 5\<rparr>] \<le> (0::nat)"
  by (simp add: findMany_def listCollections_def find_docs_def bind_def ledger_def
      collection_docs_def)

section \<open>all\<close>

lemma all_loop_result:
  "fst (all_loop table (QFunction f) cs acc s) =
     Return (acc @ concat (map (\<lambda>c. filter (\<lambda>d. f (ArgDoc d)) (collection_docs (store s table) c)) cs)) \<and>
   store (snd (all_loop table (QFunction f) cs acc s)) = store s \<and>
   caches (snd (all_loop table (QFunction f) cs acc s)) = caches s \<and>
   trace (snd (all_loop table (QFunction f) cs acc s)) = trace s @ map (Find table) cs"
proof (induction cs arbitrary: acc s)
  case Nil
  show ?case by simp
next
  case (Cons c cs)
  show ?case
    using Cons.IH [of _ "emit (Find table c) s"]
    by (simp add: find_docs_def bind_Return)
qed

lemma js_insert_asc:
  assumes "toNumber strNum (dvalue x) \<noteq> None"
    and "\<forall>y \<in> set ys. toNumber strNum (dvalue y) \<noteq> None"
  shows "js_insert (\<lambda>a b. js_minus strNum (dvalue a) (dvalue b)) x ys =
         insort_key (value_number strNum) x ys"
  using assms
  by (induction ys) (auto simp add: comes_first_def js_minus_def value_number_def)

lemma js_insert_desc:
  assumes "toNumber strNum (dvalue x) \<noteq> None"
    and "\<forall>y \<in> set ys. toNumber strNum (dvalue y) \<noteq> None"
  shows "js_insert (\<lambda>a b. js_minus strNum (dvalue b) (dvalue a)) x ys =
         insort_key (\<lambda>d. - value_number strNum d) x ys"
  using assms
  by (induction ys) (auto simp add: comes_first_def js_minus_def value_number_def)

lemma js_sort_asc:
  assumes "\<forall>x \<in> set xs. toNumber strNum (dvalue x) \<noteq> None"
  shows "js_sort (\<lambda>a b. js_minus strNum (dvalue a) (dvalue b)) xs = sort_key (value_number strNum) xs"
  using assms
proof (induction xs)
  case Nil
  show ?case by (simp add: js_sort_def)
next
  case (Cons x xs)
  then have ih: "js_sort (\<lambda>a b. js_minus strNum (dvalue a) (dvalue b)) xs = sort_key (value_number strNum) xs"
    by simp
  have "\<forall>y \<in> set (sort_key (value_number strNum) xs). toNumber strNum (dvalue y) \<noteq> None"
    using Cons.prems by simp
  with Cons.prems ih show ?case
    by (simp add: js_sort_def js_insert_asc sort_key_def)
qed

lemma js_sort_desc:
  assumes "\<forall>x \<in> set xs. toNumber strNum (dvalue x) \<noteq> None"
  shows "js_sort (\<lambda>a b. js_minus strNum (dvalue b) (dvalue a)) xs =
         sort_key (\<lambda>d. - value_number strNum d) xs"
  using assms
proof (induction xs)
  case Nil
  show ?case by (simp add: js_sort_def)
next
  case (Cons x xs)
  then have ih: "js_sort (\<lambda>a b. js_minus strNum (dvalue b) (dvalue a)) xs =
      sort_key (\<lambda>d. - value_number strNum d) xs"
    by simp
  have "\<forall>y \<in> set (sort_key (\<lambda>d. - value_number strNum d) xs). toNumber strNum (dvalue y) \<noteq> None"
    using Cons.prems by simp
  with Cons.prems ih show ?case
    by (simp add: js_sort_def js_insert_desc sort_key_def)
qed

lemma all_result:
  "fst (all strNum s table (QFunction f) list sort') =
     Return (slice0
        (let results = concat (map (\<lambda>c. filter (\<lambda>d. f (ArgDoc d)) (collection_docs (store s table) c))
                                 (map fst (store s table)));
             order = (case sort' of None \<Rightarrow> ''asc'' | Some x \<Rightarrow> x)
         in if order = ''asc''
            then js_sort (\<lambda>a b. js_minus strNum (dvalue a) (dvalue b)) results
            else if order = ''desc''
            then js_sort (\<lambda>a b. js_minus strNum (dvalue b) (dvalue a)) results
            else results)
        (case list of None \<Rightarrow> 100 | Some n \<Rightarrow> n)) \<and>
   store (snd (all strNum s table (QFunction f) list sort')) = store s \<and>
   caches (snd (all strNum s table (QFunction f) list sort')) = caches s \<and>
   calls s (snd (all strNum s table (QFunction f) list sort')) =
     ListCollections table # map (Find table) (map fst (store s table))"
proof -
  define s1 where "s1 = emit (ListCollections table) s"
  define cs where "cs = map fst (store s table)"
  have st: "store s1 = store s" by (simp add: s1_def)
  note r = all_loop_result [of table f cs "[]" s1, unfolded st]
  have a: "all strNum s table (QFunction f) list sort' =
     bind (all_loop table (QFunction f) cs [] s1) (\<lambda>results s.
             (Return
                (slice0
                   (if (case sort' of None \<Rightarrow> ''asc'' | Some x \<Rightarrow> x) = ''asc''
                    then js_sort (\<lambda>a b. js_minus strNum (dvalue a) (dvalue b)) results
                    else if (case sort' of None \<Rightarrow> ''asc'' | Some x \<Rightarrow> x) = ''desc''
                    then js_sort (\<lambda>a b. js_minus strNum (dvalue b) (dvalue a)) results
                    else results)
                   (case list of None \<Rightarrow> 100 | Some n \<Rightarrow> n)), s))"
    unfolding all_def Let_def listCollections_def bind_Return s1_def cs_def by (rule refl)
  obtain res s2 where l: "all_loop table (QFunction f) cs [] s1 = (res, s2)"
    by (cases "all_loop table (QFunction f) cs [] s1")
  have res: "res = Return (concat (map (\<lambda>c. filter (\<lambda>d. f (ArgDoc d))
      (collection_docs (store s table) c)) cs))"
    and s2: "store s2 = store s" "caches s2 = caches s"
      "trace s2 = trace s @ ListCollections table # map (Find table) cs"
    using r [unfolded l] by (simp_all add: s1_def)
  show ?thesis
    unfolding a l res bind_Return cs_def [symmetric]
    by (simp add: Let_def calls_def s2)
qed

text \<open>
  C7. For a filter function and a limit that is not negative, when the value of every
  document that passes the filter converts to a number: \<^verbatim>\<open>all\<close> reads every collection
  of the table once, keeps the documents that pass the filter, concatenates them in listing
  order, sorts them by value (ascending for \<^verbatim>\<open>"asc"\<close>, descending for \<^verbatim>\<open>"desc"\<close>, ties
  in concatenation order) and returns the first \<^verbatim>\<open>limit\<close> of the merged list. An absent
  limit is 100 and an absent sort is \<^verbatim>\<open>"asc"\<close>. The store is left as it was.
\<close>

theorem all_sorted_truncated:
  assumes "\<forall>c \<in> set (map fst (store s table)).
             \<forall>d \<in> set (collection_docs (store s table) c).
               f (ArgDoc d) \<longrightarrow> toNumber strNum (dvalue d) \<noteq> None"
    and "0 \<le> n"
  shows
   "fst (all strNum s table (QFunction f) (Some n) (Some ''asc'')) =
      Return (take (nat n) (sort_key (value_number strNum)
        (concat (map (\<lambda>c. filter (\<lambda>d. f (ArgDoc d)) (collection_docs (store s table) c))
                   (map fst (store s table)))))) \<and>
    fst (all strNum s table (QFunction f) (Some n) (Some ''desc'')) =
      Return (take (nat n) (sort_key (\<lambda>d. - value_number strNum d)
        (concat (map (\<lambda>c. filter (\<lambda>d. f (ArgDoc d)) (collection_docs (store s table) c))
                   (map fst (store s table)))))) \<and>
    all strNum s table (QFunction f) None (Some ''asc'') =
      all strNum s table (QFunction f) (Some 100) (Some ''asc'') \<and>
    all strNum s table (QFunction f) None (Some ''desc'') =
      all strNum s table (QFunction f) (Some 100) (Some ''desc'') \<and>
    all strNum s table (QFunction f) (Some n) None =
      all strNum s table (QFunction f) (Some n) (Some ''asc'') \<and>
    all strNum s table (QFunction f) None None =
      all strNum s table (QFunction f) (Some 100) (Some ''asc'') \<and>
    store (snd (all strNum s table (QFunction f) (Some n) (Some ''asc''))) = store s \<and>
    calls s (snd (all strNum s table (QFunction f) (Some n) (Some ''asc''))) =
      ListCollections table # map (Find table) (map fst (store s table))"
proof -
  define merged where "merged =
    concat (map (\<lambda>c. filter (\<lambda>d. f (ArgDoc d)) (collection_docs (store s table) c))
              (map fst (store s table)))"
  have num: "\<forall>x \<in> set merged. toNumber strNum (dvalue x) \<noteq> None"
    using assms(1) by (auto simp add: merged_def)
  note r = all_result [of strNum s table f "Some n", folded merged_def]
  have asc: "fst (all strNum s table (QFunction f) (Some n) (Some ''asc'')) =
      Return (take (nat n) (sort_key (value_number strNum) merged))"
    using assms(2) r [of "Some ''asc''"]
    by (simp add: Let_def js_sort_asc [OF num] slice0_def)
  have desc: "fst (all strNum s table (QFunction f) (Some n) (Some ''desc'')) =
      Return (take (nat n) (sort_key (\<lambda>d. - value_number strNum d) merged))"
    using assms(2) r [of "Some ''desc''"]
    by (simp add: Let_def js_sort_desc [OF num] slice0_def)
  have dflt: "all strNum s table (QFunction f) None (Some ''asc'') =
      all strNum s table (QFunction f) (Some 100) (Some ''asc'')"
    "all strNum s table (QFunction f) None (Some ''desc'') =
      all strNum s table (QFunction f) (Some 100) (Some ''desc'')"
    "all strNum s table (QFunction f) (Some n) None =
      all strNum s table (QFunction f) (Some n) (Some ''asc'')"
    "all strNum s table (QFunction f) None None =
      all strNum s table (QFunction f) (Some 100) (Some ''asc'')"
    by (simp_all add: all_def)
  have frame: "store (snd (all strNum s table (QFunction f) (Some n) (Some ''asc''))) = store s"
    "calls s (snd (all strNum s table (QFunction f) (Some n) (Some ''asc''))) =
      ListCollections table # map (Find table) (map fst (store s table))"
    using all_result [of strNum s table f "Some n" "Some ''asc''"] by blast+
  show ?thesis
    unfolding merged_def [symmetric]
    by (intro conjI asc desc dflt frame)
qed

text \<open>
  The instance of C7 on the collections \<^verbatim>\<open>A\<close> and \<^verbatim>\<open>B\<close>:
  \<^verbatim>\<open>all("main", v => v.value > 0, 10, "desc")\<close> returns \<^verbatim>\<open>y\<close> before \<^verbatim>\<open>x\<close>.
\<close>

theorem all_sorted_truncated_witness:
  "fst (all (\<lambda>_. None) ledger ''main'' (QFunction (positive_value (\<lambda>_. None))) (Some 10) (Some ''desc'')) =
     Return [\<lparr>dkey = ''y'', dvalue = JNum 5\<rparr>, \<lparr>dkey = ''x'', dvalue = JNum 1\<rparr>]"
proof -
  have h: "\<forall>c \<in> set (map fst (store ledger ''main'')).
             \<forall>d \<in> set (collection_docs (store ledger ''main'') c).
               positive_value (\<lambda>_. None) (ArgDoc d) \<longrightarrow> toNumber (\<lambda>_. None) (dvalue d) \<noteq> None"
    by (simp add: ledger_store collection_docs_def)
  have n: "(0::int) \<le> 10" by simp
  have e: "take (nat 10) (sort_key (\<lambda>d. - value_number (\<lambda>_. None) d)
        (concat (map (\<lambda>c. filter (\<lambda>d. positive_value (\<lambda>_. None) (ArgDoc d))
                             (collection_docs (store ledger ''main'') c))
                   (map fst (store ledger ''main''))))) =
      [\<lparr>dkey = ''y'', dvalue = JNum 5\<rparr>, \<lparr>dkey = ''x'', dvalue = JNum 1\<rparr>]"
    by (simp add: ledger_store collection_docs_def positive_value_def value_number_def)
  from all_sorted_truncated [OF h n]
  have "fst (all (\<lambda>_. None) ledger ''main'' (QFunction (positive_value (\<lambda>_. None))) (Some 10) (Some ''desc'')) =
      Return (take (nat 10) (sort_key (\<lambda>d. - value_number (\<lambda>_. None) d)
        (concat (map (\<lambda>c. filter (\<lambda>d. positive_value (\<lambda>_. None) (ArgDoc d))
                             (collection_docs (store ledger ''main'') c))
                   (map fst (store ledger ''main''))))))"
    by (rule conjunct1 [OF conjunct2])
  then show ?thesis
    unfolding e .
qed

end
